theory Spec2Isabelle
  imports Complex_Main
begin

section \<open>Data model of \<open>src/src/worker.py\<close>\<close>

text \<open>
  Stream names, as the module-level constants of \<open>worker.py\<close>.
\<close>

definition RGB_STREAM_NAME :: string where
  "RGB_STREAM_NAME = ''rgb''"

definition DEPTH_STREAM_NAME :: string where
  "DEPTH_STREAM_NAME = ''depth''"

definition RIGHT_STREAM_NAME :: string where
  "RIGHT_STREAM_NAME = ''right''"

definition LEFT_STREAM_NAME :: string where
  "LEFT_STREAM_NAME = ''left''"

text \<open>
  A numpy array is a nest of lists over numbers; \<open>np.array([])\<close> is the array with no
  element.
\<close>

datatype ndarray = Num int | Arr "ndarray list"

definition np_array_empty :: ndarray where
  "np_array_empty = Arr []"

text \<open>
  A Python exception object. \<open>except Exception\<close> catches the instances of \<open>Exception\<close>;
  an instance of \<open>BaseException\<close> only (\<open>SystemExit\<close>, \<open>KeyboardInterrupt\<close>) passes
  through such a handler.
\<close>

datatype exn = Exception string | BaseException string

fun is_Exception :: "exn \<Rightarrow> bool" where
  "is_Exception (Exception m) = True"
| "is_Exception (BaseException m) = False"

text \<open>
  What an object sends to its logger. The two f-strings of \<open>_pipeline_loop\<close> keep their
  arguments apart instead of formatting them.
\<close>

datatype log_entry =
    Debug string
  | Info string
  | Debug_failure_count nat exn
  | Error_exceeded_max exn

text \<open>
  \<open>WorkerManager\<close>. \<open>m_started\<close> is the thread's started flag (\<open>Thread.start\<close>),
  \<open>m_logger\<close> the messages this object sent to its logger, \<open>reconfigure_calls\<close> the
  number of invocations of the callback \<open>self.reconfigure\<close>, and \<open>slept\<close> the arguments of
  the \<open>time.sleep\<close> calls, newest last.
\<close>

record worker_manager =
  needs_reconfigure :: bool
  running :: bool
  m_started :: bool
  m_logger :: "log_entry list"
  reconfigure_calls :: nat
  slept :: "nat list"

text \<open>
  \<open>Worker\<close>. \<open>w_started\<close> is the started flag of the worker's own thread, \<open>logger\<close> the
  messages this object sent to its logger.
\<close>

record worker =
  height :: int
  width :: int
  frame_rate :: real
  should_get_color :: bool
  should_get_depth :: bool
  logger :: "log_entry list"
  color_image :: ndarray
  depth_map :: ndarray
  pcd :: ndarray
  manager :: worker_manager
  w_started :: bool

text \<open>A \<open>PointcloudPacket\<close>, of which the worker reads \<open>points\<close>.\<close>

record pointcloud_packet =
  points :: ndarray

subsection \<open>The device session\<close>

text \<open>
  The camera SDK (\<open>depthai\<close>, \<open>depthai_sdk\<close>) and OpenCV are libraries outside the
  repository. A session records the calls the worker makes on them, in order; an object
  the SDK returns is named by the position of the call that created it. Which calls raise
  is an input: \<open>faults\<close> maps the position of a call to the exception it raises.
\<close>

type_synonym handle = nat

datatype node_kind = XLinkOut | MonoCamera

datatype color_code = COLOR_BGR2RGB

datatype sdk_call =
    OakCamera_enter
  | OakCamera_exit
  | Pipeline_create node_kind
  | SetStreamName handle string
  | Oak_camera string real
  | SetPreviewSize handle int int
  | Preview_link handle handle
  | Oak_stereo real handle handle
  | Config_stereo handle "handle option"
  | Depth_link handle handle
  | Create_pointcloud "handle option" "handle option"
  | Oak_callback handle
  | Oak_start bool
  | GetOutputQueue string "nat option" "bool option"
  | TryGet handle
  | GetCvFrame handle
  | Cv2_cvtColor color_code
  | Cv2_resize int int
  | Oak_poll

record session =
  calls :: "sdk_call list"
  faults :: "(nat \<times> exn) list"

text \<open>
  OpenCV's two functions are parameters of the model.
\<close>

record cv2 =
  cvtColor :: "ndarray \<Rightarrow> color_code \<Rightarrow> ndarray"
  resize :: "ndarray \<Rightarrow> int \<times> int \<Rightarrow> ndarray"

subsection \<open>Statements that read and write the worker and the session\<close>

text \<open>
  A statement runs on the worker object and the open session. It returns a value, raises,
  or is still running when the observed inputs end (\<open>Unfinished\<close>: the drain loop has no
  bound of its own). What it wrote before raising stays written.
\<close>

record env =
  self :: worker
  oak :: session

datatype 'a res = Ok 'a | Raise exn | Unfinished

type_synonym 'a prog = "env \<Rightarrow> 'a res \<times> env"

definition ret :: "'a \<Rightarrow> 'a prog" where
  "ret x \<sigma> = (Ok x, \<sigma>)"

definition bind :: "'a prog \<Rightarrow> ('a \<Rightarrow> 'b prog) \<Rightarrow> 'b prog" where
  "bind m f \<sigma> =
     (case m \<sigma> of
        (Ok a, \<sigma>') \<Rightarrow> f a \<sigma>'
      | (Raise e, \<sigma>') \<Rightarrow> (Raise e, \<sigma>')
      | (Unfinished, \<sigma>') \<Rightarrow> (Unfinished, \<sigma>'))"

definition on_self :: "(worker \<Rightarrow> worker) \<Rightarrow> unit prog" where
  "on_self f \<sigma> = (Ok (), \<sigma>\<lparr>self := f (self \<sigma>)\<rparr>)"

text \<open>Reading the worker object, for the fields a method consults.\<close>

definition get_self :: "worker prog" where
  "get_self \<sigma> = (Ok (self \<sigma>), \<sigma>)"

definition log_to :: "log_entry \<Rightarrow> worker \<Rightarrow> worker" where
  "log_to l w = w\<lparr>logger := logger w @ [l]\<rparr>"

definition m_log_to :: "log_entry \<Rightarrow> worker_manager \<Rightarrow> worker_manager" where
  "m_log_to l m = m\<lparr>m_logger := m_logger m @ [l]\<rparr>"

text \<open>
  One call into the SDK: it is recorded, and it raises when the fault plan says so at its
  position; otherwise it returns the handle of what it made.
\<close>

definition call :: "sdk_call \<Rightarrow> handle prog" where
  "call c \<sigma> =
     (let k = length (calls (oak \<sigma>));
          \<sigma>' = \<sigma>\<lparr>oak := (oak \<sigma>)\<lparr>calls := calls (oak \<sigma>) @ [c]\<rparr>\<rparr>
      in case map_of (faults (oak \<sigma>)) k of
           Some e \<Rightarrow> (Raise e, \<sigma>')
         | None \<Rightarrow> (Ok k, \<sigma>'))"

section \<open>\<open>WorkerManager\<close>\<close>

definition WorkerManager_init :: worker_manager where
  "WorkerManager_init =
     \<lparr>needs_reconfigure = False, running = True, m_started = False, m_logger = [],
      reconfigure_calls = 0, slept = []\<rparr>"

definition WorkerManager_start :: "worker_manager \<Rightarrow> worker_manager" where
  "WorkerManager_start m = m\<lparr>m_started := True\<rparr>"

definition WorkerManager_stop :: "worker_manager \<Rightarrow> worker_manager" where
  "WorkerManager_stop m = (m_log_to (Debug ''Stopping worker manager.'') m)\<lparr>running := False\<rparr>"

text \<open>
  What the rest of the program does to the watchdog between two loop tests: whether
  \<open>stop\<close> was called, whether the worker thread wrote \<open>needs_reconfigure = True\<close>, and
  what the callback does if this iteration invokes it (\<open>None\<close>: it returns).
\<close>

record m_tick =
  m_stop_called :: bool
  flag_raised :: bool
  callback_raises :: "exn option"

text \<open>
  How far a thread's \<open>run\<close> got: it returned, it is still in its loop when the observed
  inputs end, or an exception left it.
\<close>

datatype status = Returned | Pending | Propagated exn

fun manager_loop :: "m_tick list \<Rightarrow> worker_manager \<Rightarrow> status \<times> worker_manager" where
  "manager_loop [] m = (if running m then (Pending, m) else (Returned, m))"
| "manager_loop (t # ts) m =
     (let m1 = (if m_stop_called t then WorkerManager_stop m else m) in
      if running m1 then
        (let m2 = m_log_to (Debug ''Checking if worker must be reconfigured.'') m1;
             m3 = (if flag_raised t then m2\<lparr>needs_reconfigure := True\<rparr> else m2) in
         if needs_reconfigure m3 then
           (let m4 = (m_log_to (Debug ''Worker needs reconfiguring; reconfiguring worker.'') m3)
                       \<lparr>reconfigure_calls := reconfigure_calls m3 + 1\<rparr> in
            case callback_raises t of
              Some e \<Rightarrow> (Propagated e, m4)
            | None \<Rightarrow> manager_loop ts (m4\<lparr>slept := slept m4 @ [5]\<rparr>))
         else manager_loop ts (m3\<lparr>slept := slept m3 @ [5]\<rparr>))
      else (Returned, m1))"

definition WorkerManager_run :: "m_tick list \<Rightarrow> worker_manager \<Rightarrow> status \<times> worker_manager" where
  "WorkerManager_run ts m = manager_loop ts (m_log_to (Debug ''Starting worker manager.'') m)"

section \<open>\<open>Worker\<close>\<close>

definition Worker_init :: "int \<Rightarrow> int \<Rightarrow> real \<Rightarrow> bool \<Rightarrow> bool \<Rightarrow> worker" where
  "Worker_init h w fr c d =
     \<lparr>height = h, width = w, frame_rate = fr, should_get_color = c, should_get_depth = d,
      logger = [Info ''Initializing camera pipeline worker.''],
      color_image = np_array_empty, depth_map = np_array_empty, pcd = np_array_empty,
      manager = WorkerManager_start WorkerManager_init,
      w_started = False\<rparr>"

text \<open>\<open>start\<close> is inherited from \<open>Thread\<close>: it marks the worker's thread started.\<close>

definition Worker_start :: "worker \<Rightarrow> worker" where
  "Worker_start w = w\<lparr>w_started := True\<rparr>"

definition get_color_image :: "worker \<Rightarrow> ndarray" where
  "get_color_image w = color_image w"

definition get_depth_map :: "worker \<Rightarrow> ndarray" where
  "get_depth_map w = depth_map w"

definition get_pcd :: "worker \<Rightarrow> ndarray" where
  "get_pcd w = pcd w"

definition Worker_stop :: "worker \<Rightarrow> worker" where
  "Worker_stop w = (log_to (Info ''Stopping worker.'') w)\<lparr>manager := WorkerManager_stop (manager w)\<rparr>"

definition set_current_image :: "ndarray \<Rightarrow> worker \<Rightarrow> worker" where
  "set_current_image arr w = (log_to (Debug ''Setting current_image.'') w)\<lparr>color_image := arr\<rparr>"

definition set_current_depth_map :: "ndarray \<Rightarrow> worker \<Rightarrow> worker" where
  "set_current_depth_map arr w = (log_to (Debug ''Setting current depth map.'') w)\<lparr>depth_map := arr\<rparr>"

definition set_current_pcd :: "pointcloud_packet \<Rightarrow> worker \<Rightarrow> worker" where
  "set_current_pcd packet w = (log_to (Debug ''Setting current pcd.'') w)\<lparr>pcd := points packet\<rparr>"

subsection \<open>Building the pipeline\<close>

definition add_camera_rgb_node :: "handle option prog" where
  "add_camera_rgb_node =
     bind get_self (\<lambda>w.
      if should_get_color w then
        bind (on_self (log_to (Debug ''Creating pipeline node: color camera.''))) (\<lambda>_.
        bind (call (Pipeline_create XLinkOut)) (\<lambda>xout_color.
        bind (call (SetStreamName xout_color RGB_STREAM_NAME)) (\<lambda>_.
        bind (call (Oak_camera ''color'' (frame_rate w))) (\<lambda>color.
        bind (call (SetPreviewSize color (width w) (height w))) (\<lambda>_.
        bind (call (Preview_link color xout_color)) (\<lambda>_.
        ret (Some color)))))))
      else ret None)"

definition add_depth_node :: "handle option \<Rightarrow> handle option prog" where
  "add_depth_node color =
     bind get_self (\<lambda>w.
      if should_get_depth w then
        bind (on_self (log_to (Debug ''Creating pipeline node: stereo depth.''))) (\<lambda>_.
        bind (call (Pipeline_create MonoCamera)) (\<lambda>mono_right.
        bind (call (Pipeline_create MonoCamera)) (\<lambda>mono_left.
        bind (call (Pipeline_create XLinkOut)) (\<lambda>depth_out.
        bind (call (SetStreamName depth_out DEPTH_STREAM_NAME)) (\<lambda>_.
        bind (call (Pipeline_create XLinkOut)) (\<lambda>xout_right.
        bind (call (SetStreamName xout_right RIGHT_STREAM_NAME)) (\<lambda>_.
        bind (call (Pipeline_create XLinkOut)) (\<lambda>xout_left.
        bind (call (SetStreamName xout_left LEFT_STREAM_NAME)) (\<lambda>_.
        bind (call (Oak_stereo (frame_rate w) mono_left mono_right)) (\<lambda>stereo.
        bind (if should_get_color w
              then bind (call (Config_stereo stereo color)) (\<lambda>_. ret ())
              else ret ()) (\<lambda>_.
        bind (call (Depth_link stereo depth_out)) (\<lambda>_.
        ret (Some stereo)))))))))))))
      else ret None)"

definition add_pc_node :: "handle option \<Rightarrow> handle option \<Rightarrow> handle option prog" where
  "add_pc_node color stereo =
     bind get_self (\<lambda>w.
      if should_get_depth w then
        bind (call (Create_pointcloud stereo color)) (\<lambda>pcl.
        bind (call (Oak_callback pcl)) (\<lambda>_.
        ret (Some pcl)))
      else ret None)"

subsection \<open>Draining the outputs\<close>

text \<open>
  What the device and the other threads supply to one iteration of the drain loop:
  whether \<open>stop\<close> was called before the loop test, the frame each \<open>tryGet\<close> finds
  (\<open>None\<close>: the queue is empty) and the packets \<open>oak.poll()\<close> hands to the registered
  callback.
\<close>

record tick =
  stop_called :: bool
  rgb_frame :: "ndarray option"
  depth_frame :: "ndarray option"
  packets :: "pointcloud_packet list"

definition handle_color_output :: "cv2 \<Rightarrow> tick \<Rightarrow> unit prog" where
  "handle_color_output cv t =
     bind get_self (\<lambda>w.
      if should_get_color w then
        bind (call (GetOutputQueue RGB_STREAM_NAME None None)) (\<lambda>rgb_queue.
        bind (call (TryGet rgb_queue)) (\<lambda>msg.
        case rgb_frame t of
          None \<Rightarrow> ret ()
        | Some frame \<Rightarrow>
            bind (call (GetCvFrame msg)) (\<lambda>_.
            bind (call (Cv2_cvtColor COLOR_BGR2RGB)) (\<lambda>_.
            on_self (set_current_image (cvtColor cv frame COLOR_BGR2RGB))))))
      else ret ())"

definition handle_depth_output :: "cv2 \<Rightarrow> tick \<Rightarrow> unit prog" where
  "handle_depth_output cv t =
     bind get_self (\<lambda>w.
      if should_get_depth w then
        bind (call (GetOutputQueue DEPTH_STREAM_NAME (Some 4) (Some False))) (\<lambda>q_depth.
        bind (call (TryGet q_depth)) (\<lambda>msg.
        case depth_frame t of
          None \<Rightarrow> ret ()
        | Some frame \<Rightarrow>
            bind (call (GetCvFrame msg)) (\<lambda>_.
            bind (call (Cv2_resize (width w) (height w))) (\<lambda>_.
            on_self (set_current_depth_map (resize cv frame (width w, height w)))))))
      else ret ())"

text \<open>
  \<open>oak.poll()\<close> runs the callback registered by \<open>_add_pc_node\<close>, \<open>_set_current_pcd\<close>, on
  each packet that is ready.
\<close>

definition handle_pcd_output :: "tick \<Rightarrow> unit prog" where
  "handle_pcd_output t =
     bind get_self (\<lambda>w.
      if should_get_depth w then
        bind (call Oak_poll) (\<lambda>_.
        on_self (\<lambda>w1. foldl (\<lambda>w' packet. set_current_pcd packet w') w1 (packets t)))
      else ret ())"

definition drain_step :: "cv2 \<Rightarrow> tick \<Rightarrow> unit prog" where
  "drain_step cv t =
     bind (handle_color_output cv t) (\<lambda>_.
     bind (handle_depth_output cv t) (\<lambda>_.
     handle_pcd_output t))"

fun drain :: "cv2 \<Rightarrow> tick list \<Rightarrow> unit prog" where
  "drain cv [] \<sigma> = (if running (manager (self \<sigma>)) then (Unfinished, \<sigma>) else (Ok (), \<sigma>))"
| "drain cv (t # ts) \<sigma> =
     (let \<sigma>1 = (if stop_called t then \<sigma>\<lparr>self := Worker_stop (self \<sigma>)\<rparr> else \<sigma>) in
      if running (manager (self \<sigma>1)) then
        (case drain_step cv t \<sigma>1 of
           (Ok u, \<sigma>2) \<Rightarrow> drain cv ts \<sigma>2
         | (Raise e, \<sigma>2) \<Rightarrow> (Raise e, \<sigma>2)
         | (Unfinished, \<sigma>2) \<Rightarrow> (Unfinished, \<sigma>2))
      else (Ok (), \<sigma>1))"

subsection \<open>The pipeline loop and the thread's \<open>run\<close>\<close>

text \<open>
  \<open>with OakCamera() as oak\<close>: the body runs on the opened session, and leaving the block,
  normally or by an exception, closes it; an exception of the closing replaces the body's.
\<close>

definition with_OakCamera :: "(handle \<Rightarrow> 'a prog) \<Rightarrow> 'a prog" where
  "with_OakCamera body \<sigma> =
     (case call OakCamera_enter \<sigma> of
        (Ok oak_h, \<sigma>1) \<Rightarrow>
          (case body oak_h \<sigma>1 of
             (Unfinished, \<sigma>2) \<Rightarrow> (Unfinished, \<sigma>2)
           | (Ok a, \<sigma>2) \<Rightarrow>
               (case call OakCamera_exit \<sigma>2 of
                  (Ok u, \<sigma>3) \<Rightarrow> (Ok a, \<sigma>3)
                | (Raise e', \<sigma>3) \<Rightarrow> (Raise e', \<sigma>3)
                | (Unfinished, \<sigma>3) \<Rightarrow> (Unfinished, \<sigma>3))
           | (Raise e, \<sigma>2) \<Rightarrow>
               (case call OakCamera_exit \<sigma>2 of
                  (Ok u, \<sigma>3) \<Rightarrow> (Raise e, \<sigma>3)
                | (Raise e', \<sigma>3) \<Rightarrow> (Raise e', \<sigma>3)
                | (Unfinished, \<sigma>3) \<Rightarrow> (Unfinished, \<sigma>3)))
      | (Raise e, \<sigma>1) \<Rightarrow> (Raise e, \<sigma>1)
      | (Unfinished, \<sigma>1) \<Rightarrow> (Unfinished, \<sigma>1))"

definition pipeline_body :: "cv2 \<Rightarrow> tick list \<Rightarrow> unit prog" where
  "pipeline_body cv ts =
     bind (on_self (log_to (Debug ''Initializing worker image pipeline.''))) (\<lambda>_.
     with_OakCamera (\<lambda>oak_h.
       bind add_camera_rgb_node (\<lambda>color.
       bind (add_depth_node color) (\<lambda>stereo.
       bind (add_pc_node color stereo) (\<lambda>_.
       bind (call (Oak_start False)) (\<lambda>_.
       drain cv ts))))))"

text \<open>
  The inputs of one invocation of \<open>_pipeline_loop\<close>: whether \<open>stop\<close> was called before
  the test of \<open>run\<close>'s loop that precedes it, which SDK calls of its session raise, and
  what the drain loop's iterations receive.
\<close>

record plan =
  stop_first :: bool
  plan_faults :: "(nat \<times> exn) list"
  ticks :: "tick list"

text \<open>
  What one invocation leaves: how it ended, the value of its local \<open>failures\<close> at that
  point, and the worker and session.
\<close>

record loop_exit =
  status :: status
  failures :: nat
  final :: env

text \<open>The state in which an invocation starts: the worker as it is, and no session yet.\<close>

definition fresh_env :: "worker \<Rightarrow> plan \<Rightarrow> env" where
  "fresh_env w p = \<lparr>self = w, oak = \<lparr>calls = [], faults = plan_faults p\<rparr>\<rparr>"

definition pipeline_finally :: "env \<Rightarrow> env" where
  "pipeline_finally \<sigma> = \<sigma>\<lparr>self := log_to (Debug ''Exiting worker camera loop.'') (self \<sigma>)\<rparr>"

definition pipeline_loop :: "cv2 \<Rightarrow> plan \<Rightarrow> worker \<Rightarrow> loop_exit" where
  "pipeline_loop cv p w =
     (let failures0 = (0::nat) in
      case pipeline_body cv (ticks p) (fresh_env w p) of
        (Ok u, \<sigma>) \<Rightarrow> \<lparr>status = Returned, failures = failures0, final = pipeline_finally \<sigma>\<rparr>
      | (Unfinished, \<sigma>) \<Rightarrow> \<lparr>status = Pending, failures = failures0, final = \<sigma>\<rparr>
      | (Raise e, \<sigma>) \<Rightarrow>
          if is_Exception e then
            (let failures1 = failures0 + 1;
                 \<sigma>' = (if failures1 > 3
                       then \<sigma>\<lparr>self := log_to (Error_exceeded_max e)
                                ((self \<sigma>)\<lparr>manager := (manager (self \<sigma>))\<lparr>needs_reconfigure := True\<rparr>\<rparr>)\<rparr>
                       else \<sigma>\<lparr>self := log_to (Debug_failure_count failures1 e) (self \<sigma>)\<rparr>)
             in \<lparr>status = Returned, failures = failures1, final = pipeline_finally \<sigma>'\<rparr>)
          else \<lparr>status = Propagated e, failures = failures0, final = pipeline_finally \<sigma>\<rparr>)"

fun run_loop :: "cv2 \<Rightarrow> plan list \<Rightarrow> worker \<Rightarrow> status \<times> worker" where
  "run_loop cv [] w = (if running (manager w) then (Pending, w) else (Returned, w))"
| "run_loop cv (p # ps) w =
     (let w1 = (if stop_first p then Worker_stop w else w) in
      if running (manager w1) then
        (let r = pipeline_loop cv p w1 in
         case status r of
           Returned \<Rightarrow> run_loop cv ps (self (final r))
         | Pending \<Rightarrow> (Pending, self (final r))
         | Propagated e \<Rightarrow> (Propagated e, self (final r)))
      else (Returned, w1))"

definition Worker_run :: "cv2 \<Rightarrow> plan list \<Rightarrow> worker \<Rightarrow> status \<times> worker" where
  "Worker_run cv ps w =
     (case run_loop cv ps w of
        (Pending, w') \<Rightarrow> (Pending, w')
      | (Returned, w') \<Rightarrow> (Returned, log_to (Info ''Stopped and exited worker thread.'') w')
      | (Propagated e, w') \<Rightarrow> (Propagated e, log_to (Info ''Stopped and exited worker thread.'') w'))"

section \<open>Predicates for reasoning about statements\<close>

text \<open>
  \<open>preserves I m\<close>: the statement \<open>m\<close> keeps the property \<open>I\<close> of the worker object, however it
  ends. \<open>stable I\<close>: the worker's elementary writes keep \<open>I\<close>. \<open>tame m\<close>: \<open>m\<close> leaves the fault
  plan alone, only appends to the recorded calls, and raises nothing but planned faults.
\<close>

definition preserves :: "(worker \<Rightarrow> bool) \<Rightarrow> 'a prog \<Rightarrow> bool" where
  "preserves I m = (\<forall>\<sigma>. I (self \<sigma>) \<longrightarrow> I (self (snd (m \<sigma>))))"

definition stable :: "(worker \<Rightarrow> bool) \<Rightarrow> bool" where
  "stable I =
     ((\<forall>s w. I w \<longrightarrow> I (log_to (Debug s) w)) \<and>
      (\<forall>s w. I w \<longrightarrow> I (log_to (Info s) w)) \<and>
      (\<forall>a w. I w \<longrightarrow> should_get_color w \<longrightarrow> I (set_current_image a w)) \<and>
      (\<forall>a w. I w \<longrightarrow> I (set_current_depth_map a w)) \<and>
      (\<forall>p w. I w \<longrightarrow> I (set_current_pcd p w)) \<and>
      (\<forall>w. I w \<longrightarrow> I (Worker_stop w)) \<and>
      (\<forall>e w. I w \<longrightarrow> I (log_to (Debug_failure_count 1 e) w)))"

definition tame :: "'a prog \<Rightarrow> bool" where
  "tame m =
     (\<forall>\<sigma>. faults (oak (snd (m \<sigma>))) = faults (oak \<sigma>) \<and>
          (\<exists>cs. calls (oak (snd (m \<sigma>))) = calls (oak \<sigma>) @ cs) \<and>
          (\<forall>e. fst (m \<sigma>) = Raise e \<longrightarrow> e \<in> snd ` set (faults (oak \<sigma>))))"

section \<open>Concrete inputs\<close>

text \<open>
  An instance of the OpenCV parameter for evaluating the model: the colour conversion
  reverses the channels of each pixel, the resize samples the nearest row and column.
\<close>

definition rev_channels :: "ndarray \<Rightarrow> ndarray" where
  "rev_channels px = (case px of Arr cs \<Rightarrow> Arr (rev cs) | Num n \<Rightarrow> Num n)"

definition map_arr :: "(ndarray \<Rightarrow> ndarray) \<Rightarrow> ndarray \<Rightarrow> ndarray" where
  "map_arr f a = (case a of Arr xs \<Rightarrow> Arr (map f xs) | Num n \<Rightarrow> Num n)"

definition nearest :: "'a list \<Rightarrow> nat \<Rightarrow> 'a list" where
  "nearest xs n = (if xs = [] then [] else map (\<lambda>i. xs ! (i * length xs div n)) [0..<n])"

definition resize_nearest :: "ndarray \<Rightarrow> int \<times> int \<Rightarrow> ndarray" where
  "resize_nearest a wh =
     (case a of
        Arr rows \<Rightarrow>
          Arr (map (\<lambda>r. case r of Arr px \<Rightarrow> Arr (nearest px (nat (fst wh))) | Num n \<Rightarrow> Num n)
                 (nearest rows (nat (snd wh))))
      | Num n \<Rightarrow> Num n)"

definition cv2_sample :: cv2 where
  "cv2_sample = \<lparr>cvtColor = (\<lambda>a code. map_arr (map_arr rev_channels) a), resize = resize_nearest\<rparr>"

text \<open>A session whose opening raises: \<open>OakCamera()\<close> is the call at position 0.\<close>

definition failing_plan :: plan where
  "failing_plan =
     \<lparr>stop_first = False, plan_faults = [(0, Exception ''device unreachable'')], ticks = []\<rparr>"


text \<open>
  Watchdog iterations: one before which the worker thread raised the flag, and one in which
  the callback raises.
\<close>

definition flag_tick :: m_tick where
  "flag_tick = \<lparr>m_stop_called = False, flag_raised = True, callback_raises = None\<rparr>"

definition failing_callback_tick :: m_tick where
  "failing_callback_tick =
     \<lparr>m_stop_called = False, flag_raised = True,
      callback_raises = Some (Exception ''reconfigure failed'')\<rparr>"

text \<open>
  A drain iteration that finds a 1x2 BGR frame, a 1x4 depth frame and one point-cloud
  packet; a session without faults that runs it; and a worker of height 1 and width 2
  whose watchdog has seen the flag and invoked the callback once.
\<close>

definition frames_tick :: tick where
  "frames_tick =
     \<lparr>stop_called = False,
      rgb_frame = Some (Arr [Arr [Arr [Num 1, Num 2, Num 3], Arr [Num 4, Num 5, Num 6]]]),
      depth_frame = Some (Arr [Arr [Num 7, Num 8, Num 9, Num 10]]),
      packets = [\<lparr>points = Arr [Arr [Num 0, Num 0, Num 1]]\<rparr>]\<rparr>"

definition frames_plan :: plan where
  "frames_plan = \<lparr>stop_first = False, plan_faults = [], ticks = [frames_tick]\<rparr>"

definition flagged_worker :: worker where
  "flagged_worker =
     (Worker_init 1 2 30 True True)
       \<lparr>manager := snd (manager_loop [flag_tick] (manager (Worker_init 1 2 30 True True)))\<rparr>"

text \<open>
  For the readers' view of the frame store: a sequence of writes through the three setters,
  and, read off that sequence alone, the value each slot holds after it (the last value
  written to the slot, or what the slot held before).
\<close>

datatype store_op = Store_image ndarray | Store_depth_map ndarray | Store_pcd pointcloud_packet

fun apply_store :: "worker \<Rightarrow> store_op \<Rightarrow> worker" where
  "apply_store w (Store_image arr) = set_current_image arr w"
| "apply_store w (Store_depth_map arr) = set_current_depth_map arr w"
| "apply_store w (Store_pcd packet) = set_current_pcd packet w"

fun latest_image :: "ndarray \<Rightarrow> store_op list \<Rightarrow> ndarray" where
  "latest_image cur [] = cur"
| "latest_image cur (Store_image arr # ops) = latest_image arr ops"
| "latest_image cur (Store_depth_map arr # ops) = latest_image cur ops"
| "latest_image cur (Store_pcd packet # ops) = latest_image cur ops"

fun latest_depth_map :: "ndarray \<Rightarrow> store_op list \<Rightarrow> ndarray" where
  "latest_depth_map cur [] = cur"
| "latest_depth_map cur (Store_image arr # ops) = latest_depth_map cur ops"
| "latest_depth_map cur (Store_depth_map arr # ops) = latest_depth_map arr ops"
| "latest_depth_map cur (Store_pcd packet # ops) = latest_depth_map cur ops"

fun latest_pcd :: "ndarray \<Rightarrow> store_op list \<Rightarrow> ndarray" where
  "latest_pcd cur [] = cur"
| "latest_pcd cur (Store_image arr # ops) = latest_pcd cur ops"
| "latest_pcd cur (Store_depth_map arr # ops) = latest_pcd cur ops"
| "latest_pcd cur (Store_pcd packet # ops) = latest_pcd (points packet) ops"

text \<open>A watchdog iteration in which nothing happened.\<close>

definition quiet_tick :: m_tick where
  "quiet_tick = \<lparr>m_stop_called = False, flag_raised = False, callback_raises = None\<rparr>"

text \<open>The state in which the drain loop of a worker of height 1 and width 2 starts.\<close>

definition drain_start :: env where
  "drain_start = fresh_env (Worker_init 1 2 30 True True) frames_plan"

text \<open>
  The calls that open a session and build its pipeline when nothing raises, up to
  \<open>oak.start\<close>. With depth alone: the stereo node is the call at position 9, and the
  point cloud is created on it with \<open>colorize=None\<close>. With colour and depth: the colour
  camera is the call at position 3, the stereo node the call at position 14, aligned to
  the colour camera, and the point cloud is created on both.
\<close>

definition depth_only_wiring :: "real \<Rightarrow> sdk_call list" where
  "depth_only_wiring fps =
     [OakCamera_enter,
      Pipeline_create MonoCamera, Pipeline_create MonoCamera,
      Pipeline_create XLinkOut, SetStreamName 3 DEPTH_STREAM_NAME,
      Pipeline_create XLinkOut, SetStreamName 5 RIGHT_STREAM_NAME,
      Pipeline_create XLinkOut, SetStreamName 7 LEFT_STREAM_NAME,
      Oak_stereo fps 2 1, Depth_link 9 3,
      Create_pointcloud (Some 9) None, Oak_callback 11,
      Oak_start False]"

definition color_depth_wiring :: "real \<Rightarrow> int \<Rightarrow> int \<Rightarrow> sdk_call list" where
  "color_depth_wiring fps wd ht =
     [OakCamera_enter,
      Pipeline_create XLinkOut, SetStreamName 1 RGB_STREAM_NAME,
      Oak_camera ''color'' fps, SetPreviewSize 3 wd ht, Preview_link 3 1,
      Pipeline_create MonoCamera, Pipeline_create MonoCamera,
      Pipeline_create XLinkOut, SetStreamName 8 DEPTH_STREAM_NAME,
      Pipeline_create XLinkOut, SetStreamName 10 RIGHT_STREAM_NAME,
      Pipeline_create XLinkOut, SetStreamName 12 LEFT_STREAM_NAME,
      Oak_stereo fps 7 6, Config_stereo 14 (Some 3), Depth_link 14 8,
      Create_pointcloud (Some 14) (Some 3), Oak_callback 17,
      Oak_start False]"

section \<open>Properties of the statements\<close>

lemma preservesI:
  assumes "\<And>\<sigma>. I (self \<sigma>) \<Longrightarrow> I (self (snd (m \<sigma>)))"
  shows "preserves I m"
  using assms by (simp add: preserves_def)

lemma preservesD: "preserves I m \<Longrightarrow> I (self \<sigma>) \<Longrightarrow> I (self (snd (m \<sigma>)))"
  by (simp add: preserves_def)

lemma preserves_ret: "preserves I (ret x)"
  by (simp add: preserves_def ret_def)

lemma preserves_get_self: "preserves I get_self"
  by (simp add: preserves_def get_self_def)

lemma preserves_call: "preserves I (call c)"
  by (simp add: preserves_def call_def Let_def split: option.splits)

lemma preserves_on_self: "(\<And>w. I w \<Longrightarrow> I (f w)) \<Longrightarrow> preserves I (on_self f)"
  by (simp add: preserves_def on_self_def)

lemma preserves_if: "preserves I a \<Longrightarrow> preserves I b \<Longrightarrow> preserves I (if c then a else b)"
  by simp

lemma preserves_case_option:
  "preserves I a \<Longrightarrow> (\<And>x. preserves I (b x)) \<Longrightarrow> preserves I (case v of None \<Rightarrow> a | Some x \<Rightarrow> b x)"
  by (cases v) simp_all

lemma preserves_bind:
  assumes pm: "preserves I m" and pf: "\<And>a. preserves I (f a)"
  shows "preserves I (bind m f)"
proof (rule preservesI)
  fix \<sigma> :: env assume i: "I (self \<sigma>)"
  obtain r \<sigma>' where m: "m \<sigma> = (r, \<sigma>')" by (cases "m \<sigma>")
  from preservesD [OF pm i] m have i': "I (self \<sigma>')" by simp
  show "I (self (snd (bind m f \<sigma>)))"
  proof (cases r)
    case (Ok a)
    with m i' preservesD [OF pf i', of a] show ?thesis by (simp add: bind_def)
  next
    case (Raise e)
    with m i' show ?thesis by (simp add: bind_def)
  next
    case Unfinished
    with m i' show ?thesis by (simp add: bind_def)
  qed
qed

lemma stable_Debug: "stable I \<Longrightarrow> I w \<Longrightarrow> I (log_to (Debug s) w)"
  by (simp add: stable_def)

lemma stable_Info: "stable I \<Longrightarrow> I w \<Longrightarrow> I (log_to (Info s) w)"
  by (simp add: stable_def)

lemma stable_stop: "stable I \<Longrightarrow> I w \<Longrightarrow> I (Worker_stop w)"
  by (simp add: stable_def)

lemma stable_depth: "stable I \<Longrightarrow> I w \<Longrightarrow> I (set_current_depth_map a w)"
  by (simp add: stable_def)

lemma stable_image: "stable I \<Longrightarrow> I w \<Longrightarrow> should_get_color w \<Longrightarrow> I (set_current_image a w)"
  by (simp add: stable_def)

lemma stable_packets:
  assumes st: "stable I"
  shows "I w \<Longrightarrow> I (foldl (\<lambda>w' packet. set_current_pcd packet w') w ps)"
proof (induction ps arbitrary: w)
  case Nil
  then show ?case by simp
next
  case (Cons p ps)
  from st Cons.prems have "I (set_current_pcd p w)" by (simp add: stable_def)
  then show ?case using Cons.IH by simp
qed

lemma preserves_add_camera_rgb_node:
  assumes st: "stable I"
  shows "preserves I add_camera_rgb_node"
  unfolding add_camera_rgb_node_def
  by (intro preserves_bind preserves_get_self preserves_if preserves_call preserves_ret
        preserves_on_self stable_Debug [OF st])

lemma preserves_add_depth_node:
  assumes st: "stable I"
  shows "preserves I (add_depth_node color)"
  unfolding add_depth_node_def
  by (intro preserves_bind preserves_get_self preserves_if preserves_call preserves_ret
        preserves_on_self stable_Debug [OF st])

lemma preserves_add_pc_node: "preserves I (add_pc_node color stereo)"
  unfolding add_pc_node_def
  by (intro preserves_bind preserves_get_self preserves_if preserves_call preserves_ret)

lemma preserves_handle_color_output:
  assumes st: "stable I" shows "preserves I (handle_color_output cv t)"
proof (rule preservesI)
  fix \<sigma> :: env assume i: "I (self \<sigma>)"
  show "I (self (snd (handle_color_output cv t \<sigma>)))"
  proof (cases "should_get_color (self \<sigma>)")
    case False
    with i show ?thesis by (simp add: handle_color_output_def bind_def get_self_def ret_def)
  next
    case True
    with i stable_image [OF st i True] show ?thesis
      by (simp add: handle_color_output_def bind_def get_self_def call_def on_self_def ret_def
            Let_def split: option.splits)
  qed
qed

lemma preserves_handle_depth_output:
  assumes st: "stable I"
  shows "preserves I (handle_depth_output cv t)"
  unfolding handle_depth_output_def
  by (intro preserves_bind preserves_get_self preserves_if preserves_call preserves_ret
        preserves_case_option preserves_on_self stable_depth [OF st])

lemma preserves_handle_pcd_output:
  assumes st: "stable I"
  shows "preserves I (handle_pcd_output t)"
  unfolding handle_pcd_output_def
  by (intro preserves_bind preserves_get_self preserves_if preserves_call preserves_ret
        preserves_on_self stable_packets [OF st])

lemma preserves_drain_step:
  assumes st: "stable I"
  shows "preserves I (drain_step cv t)"
  unfolding drain_step_def
  by (intro preserves_bind preserves_handle_color_output [OF st]
        preserves_handle_depth_output [OF st] preserves_handle_pcd_output [OF st])

lemma drain_keeps:
  assumes st: "stable I"
  shows "I (self \<sigma>) \<Longrightarrow> I (self (snd (drain cv ts \<sigma>)))"
proof (induction ts arbitrary: \<sigma>)
  case Nil
  then show ?case by simp
next
  case (Cons t ts)
  define \<sigma>1 where "\<sigma>1 = (if stop_called t then \<sigma>\<lparr>self := Worker_stop (self \<sigma>)\<rparr> else \<sigma>)"
  from Cons.prems have i1: "I (self \<sigma>1)"
    by (simp add: \<sigma>1_def stable_stop [OF st])
  obtain r \<sigma>2 where step: "drain_step cv t \<sigma>1 = (r, \<sigma>2)" by (cases "drain_step cv t \<sigma>1")
  from preservesD [OF preserves_drain_step [OF st] i1, of cv t] step
  have i2: "I (self \<sigma>2)" by simp
  have unfold: "drain cv (t # ts) \<sigma> =
      (if running (manager (self \<sigma>1)) then
         (case r of Ok u \<Rightarrow> drain cv ts \<sigma>2 | Raise e \<Rightarrow> (Raise e, \<sigma>2) | Unfinished \<Rightarrow> (Unfinished, \<sigma>2))
       else (Ok (), \<sigma>1))"
    using step by (simp add: \<sigma>1_def Let_def)
  show ?case
    unfolding unfold using i1 i2 Cons.IH [OF i2] by (cases r) simp_all
qed

lemma preserves_drain: "stable I \<Longrightarrow> preserves I (drain cv ts)"
  by (rule preservesI) (rule drain_keeps, assumption+)

lemma preserves_with_OakCamera:
  assumes pb: "\<And>h. preserves I (body h)"
  shows "preserves I (with_OakCamera body)"
proof (rule preservesI)
  fix \<sigma> :: env assume i: "I (self \<sigma>)"
  obtain r1 \<sigma>1 where c1: "call OakCamera_enter \<sigma> = (r1, \<sigma>1)" by (cases "call OakCamera_enter \<sigma>")
  have "I (self (snd (call OakCamera_enter \<sigma>)))"
    using i preserves_call [of I OakCamera_enter] by (simp add: preserves_def)
  with c1 have i1: "I (self \<sigma>1)" by simp
  show "I (self (snd (with_OakCamera body \<sigma>)))"
  proof (cases r1)
    case (Ok h)
    obtain r2 \<sigma>2 where b: "body h \<sigma>1 = (r2, \<sigma>2)" by (cases "body h \<sigma>1")
    from preservesD [OF pb i1, of h] b have i2: "I (self \<sigma>2)" by simp
    obtain r3 \<sigma>3 where c3: "call OakCamera_exit \<sigma>2 = (r3, \<sigma>3)" by (cases "call OakCamera_exit \<sigma>2")
    have "I (self (snd (call OakCamera_exit \<sigma>2)))"
      using i2 preserves_call [of I OakCamera_exit] by (simp add: preserves_def)
    with c3 have i3: "I (self \<sigma>3)" by simp
    from Ok c1 b c3 i2 i3 show ?thesis
      by (cases r2; cases r3) (simp_all add: with_OakCamera_def)
  next
    case (Raise e)
    with c1 i1 show ?thesis by (simp add: with_OakCamera_def)
  next
    case Unfinished
    with c1 i1 show ?thesis by (simp add: with_OakCamera_def)
  qed
qed

lemma preserves_pipeline_body:
  assumes st: "stable I"
  shows "preserves I (pipeline_body cv ts)"
  unfolding pipeline_body_def
  by (intro preserves_bind preserves_with_OakCamera preserves_on_self preserves_call
        preserves_add_camera_rgb_node [OF st] preserves_add_depth_node [OF st]
        preserves_add_pc_node preserves_drain [OF st] stable_Debug [OF st])

lemma stable_count: "stable I \<Longrightarrow> I w \<Longrightarrow> I (log_to (Debug_failure_count 1 e) w)"
  by (simp add: stable_def)

lemma pipeline_loop_unfold:
  "pipeline_loop cv p w =
     (case pipeline_body cv (ticks p) (fresh_env w p) of
        (Ok u, \<sigma>) \<Rightarrow> \<lparr>status = Returned, failures = 0, final = pipeline_finally \<sigma>\<rparr>
      | (Unfinished, \<sigma>) \<Rightarrow> \<lparr>status = Pending, failures = 0, final = \<sigma>\<rparr>
      | (Raise e, \<sigma>) \<Rightarrow>
          if is_Exception e
          then \<lparr>status = Returned, failures = 1,
                final = pipeline_finally (\<sigma>\<lparr>self := log_to (Debug_failure_count 1 e) (self \<sigma>)\<rparr>)\<rparr>
          else \<lparr>status = Propagated e, failures = 0, final = pipeline_finally \<sigma>\<rparr>)"
  by (simp add: pipeline_loop_def fresh_env_def Let_def split: prod.splits res.splits)

lemma pipeline_loop_keeps:
  assumes st: "stable I" and i: "I w"
  shows "I (self (final (pipeline_loop cv p w)))"
proof -
  obtain r \<sigma> where b: "pipeline_body cv (ticks p) (fresh_env w p) = (r, \<sigma>)"
    by (cases "pipeline_body cv (ticks p) (fresh_env w p)")
  from i have "I (self (fresh_env w p))" by (simp add: fresh_env_def)
  from preservesD [OF preserves_pipeline_body [OF st] this, of cv "ticks p"] b
  have i': "I (self \<sigma>)" by simp
  show ?thesis
    unfolding pipeline_loop_unfold b using i' stable_Debug [OF st] stable_count [OF st]
    by (cases r) (simp_all add: pipeline_finally_def)
qed

lemma run_loop_keeps:
  assumes st: "stable I"
  shows "I w \<Longrightarrow> I (snd (run_loop cv ps w))"
proof (induction ps arbitrary: w)
  case Nil
  then show ?case by simp
next
  case (Cons p ps)
  define w1 where "w1 = (if stop_first p then Worker_stop w else w)"
  from Cons.prems have i1: "I w1" by (simp add: w1_def stable_stop [OF st])
  have i2: "I (self (final (pipeline_loop cv p w1)))"
    by (rule pipeline_loop_keeps [OF st i1])
  have unfold: "run_loop cv (p # ps) w =
     (if running (manager w1) then
        (case status (pipeline_loop cv p w1) of
           Returned \<Rightarrow> run_loop cv ps (self (final (pipeline_loop cv p w1)))
         | Pending \<Rightarrow> (Pending, self (final (pipeline_loop cv p w1)))
         | Propagated e \<Rightarrow> (Propagated e, self (final (pipeline_loop cv p w1))))
      else (Returned, w1))"
    unfolding w1_def run_loop.simps Let_def by (rule refl)
  show ?case
    unfolding unfold using i1 i2 Cons.IH [OF i2]
    by (cases "status (pipeline_loop cv p w1)") simp_all
qed

lemma Worker_run_keeps:
  assumes st: "stable I" and i: "I w"
  shows "I (snd (Worker_run cv ps w))"
proof -
  obtain r w' where r: "run_loop cv ps w = (r, w')" by (cases "run_loop cv ps w")
  from run_loop_keeps [OF st i, of cv ps] r have "I w'" by simp
  with r stable_Info [OF st] show ?thesis
    by (cases r) (simp_all add: Worker_run_def)
qed

lemma stable_flag: "stable (\<lambda>w. needs_reconfigure (manager w) = b)"
  by (simp add: stable_def log_to_def set_current_image_def set_current_depth_map_def
        set_current_pcd_def Worker_stop_def WorkerManager_stop_def m_log_to_def)

lemma stable_color: "stable (\<lambda>w. \<not> should_get_color w \<and> color_image w = c)"
  by (simp add: stable_def log_to_def set_current_image_def set_current_depth_map_def
        set_current_pcd_def Worker_stop_def WorkerManager_stop_def m_log_to_def)

lemma Worker_run_flag:
  "needs_reconfigure (manager (snd (Worker_run cv ps w))) = needs_reconfigure (manager w)"
  using Worker_run_keeps [OF stable_flag, where b1 = "needs_reconfigure (manager w)" and w = w]
  by simp

lemma tameI:
  assumes "\<And>\<sigma>. faults (oak (snd (m \<sigma>))) = faults (oak \<sigma>)"
    and "\<And>\<sigma>. \<exists>cs. calls (oak (snd (m \<sigma>))) = calls (oak \<sigma>) @ cs"
    and "\<And>\<sigma> e. fst (m \<sigma>) = Raise e \<Longrightarrow> e \<in> snd ` set (faults (oak \<sigma>))"
  shows "tame m"
  using assms by (simp add: tame_def)

lemma tame_faults: "tame m \<Longrightarrow> faults (oak (snd (m \<sigma>))) = faults (oak \<sigma>)"
  by (simp add: tame_def)

lemma tame_calls: "tame m \<Longrightarrow> \<exists>cs. calls (oak (snd (m \<sigma>))) = calls (oak \<sigma>) @ cs"
  by (simp add: tame_def)

lemma tame_raise: "tame m \<Longrightarrow> fst (m \<sigma>) = Raise e \<Longrightarrow> e \<in> snd ` set (faults (oak \<sigma>))"
  by (simp add: tame_def)

lemma tame_ret: "tame (ret x)"
  by (simp add: tame_def ret_def)

lemma tame_get_self: "tame get_self"
  by (simp add: tame_def get_self_def)

lemma tame_on_self: "tame (on_self f)"
  by (simp add: tame_def on_self_def)

lemma tame_call: "tame (call c)"
proof (rule tameI)
  fix \<sigma> :: env
  show "faults (oak (snd (call c \<sigma>))) = faults (oak \<sigma>)"
    by (simp add: call_def Let_def split: option.splits)
  show "\<exists>cs. calls (oak (snd (call c \<sigma>))) = calls (oak \<sigma>) @ cs"
    by (simp add: call_def Let_def split: option.splits)
next
  fix \<sigma> :: env and e
  assume "fst (call c \<sigma>) = Raise e"
  then have "map_of (faults (oak \<sigma>)) (length (calls (oak \<sigma>))) = Some e"
    by (simp add: call_def Let_def split: option.splits)
  then have "(length (calls (oak \<sigma>)), e) \<in> set (faults (oak \<sigma>))"
    by (rule map_of_SomeD)
  then show "e \<in> snd ` set (faults (oak \<sigma>))"
    by force
qed

lemma tame_if: "tame a \<Longrightarrow> tame b \<Longrightarrow> tame (if c then a else b)"
  by simp

lemma tame_case_option:
  "tame a \<Longrightarrow> (\<And>x. tame (b x)) \<Longrightarrow> tame (case v of None \<Rightarrow> a | Some x \<Rightarrow> b x)"
  by (cases v) simp_all

lemma tame_bind:
  assumes tm: "tame m" and tf: "\<And>a. tame (f a)"
  shows "tame (bind m f)"
proof (rule tameI)
  fix \<sigma> :: env
  obtain r \<sigma>' where m: "m \<sigma> = (r, \<sigma>')" by (cases "m \<sigma>")
  from tame_faults [OF tm, of \<sigma>] m have f1: "faults (oak \<sigma>') = faults (oak \<sigma>)" by simp
  from tame_calls [OF tm, of \<sigma>] m obtain cs where c1: "calls (oak \<sigma>') = calls (oak \<sigma>) @ cs"
    by auto
  show "faults (oak (snd (bind m f \<sigma>))) = faults (oak \<sigma>)"
    using m f1 tame_faults [OF tf, of _ \<sigma>'] by (cases r) (simp_all add: bind_def)
  show "\<exists>cs. calls (oak (snd (bind m f \<sigma>))) = calls (oak \<sigma>) @ cs"
  proof (cases r)
    case (Ok a)
    from tame_calls [OF tf, of a \<sigma>'] obtain cs' where "calls (oak (snd (f a \<sigma>'))) = calls (oak \<sigma>') @ cs'"
      by auto
    with Ok m c1 show ?thesis by (simp add: bind_def)
  next
    case (Raise e)
    with m c1 show ?thesis by (simp add: bind_def)
  next
    case Unfinished
    with m c1 show ?thesis by (simp add: bind_def)
  qed
next
  fix \<sigma> :: env and e
  assume r: "fst (bind m f \<sigma>) = Raise e"
  obtain r' \<sigma>' where m: "m \<sigma> = (r', \<sigma>')" by (cases "m \<sigma>")
  from tame_faults [OF tm, of \<sigma>] m have f1: "faults (oak \<sigma>') = faults (oak \<sigma>)" by simp
  show "e \<in> snd ` set (faults (oak \<sigma>))"
  proof (cases r')
    case (Ok a)
    with r m have "fst (f a \<sigma>') = Raise e" by (simp add: bind_def)
    from tame_raise [OF tf this] f1 show ?thesis by simp
  next
    case (Raise e')
    with r m have "fst (m \<sigma>) = Raise e" by (simp add: bind_def)
    from tame_raise [OF tm this] show ?thesis .
  next
    case Unfinished
    with r m show ?thesis by (simp add: bind_def)
  qed
qed




lemma tame_handle_color_output: "tame (handle_color_output cv t)"
  unfolding handle_color_output_def
  by (intro tame_bind tame_get_self tame_if tame_call tame_ret tame_case_option tame_on_self)

lemma tame_handle_depth_output: "tame (handle_depth_output cv t)"
  unfolding handle_depth_output_def
  by (intro tame_bind tame_get_self tame_if tame_call tame_ret tame_case_option tame_on_self)

lemma tame_handle_pcd_output: "tame (handle_pcd_output t)"
  unfolding handle_pcd_output_def
  by (intro tame_bind tame_get_self tame_if tame_call tame_ret tame_on_self)

lemma tame_drain_step: "tame (drain_step cv t)"
  unfolding drain_step_def
  by (intro tame_bind tame_handle_color_output tame_handle_depth_output tame_handle_pcd_output)

lemma drain_unfold:
  "drain cv (t # ts) \<sigma> =
     (if running (manager (self (if stop_called t then \<sigma>\<lparr>self := Worker_stop (self \<sigma>)\<rparr> else \<sigma>)))
      then bind (drain_step cv t) (\<lambda>_. drain cv ts)
             (if stop_called t then \<sigma>\<lparr>self := Worker_stop (self \<sigma>)\<rparr> else \<sigma>)
      else (Ok (), if stop_called t then \<sigma>\<lparr>self := Worker_stop (self \<sigma>)\<rparr> else \<sigma>))"
  by (simp add: bind_def Let_def split: prod.splits res.splits)

lemma tame_drain: "tame (drain cv ts)"
proof (induction ts)
  case Nil
  show ?case by (rule tameI) (simp_all split: if_splits)
next
  case (Cons t ts)
  have tb: "tame (bind (drain_step cv t) (\<lambda>_. drain cv ts))"
    by (intro tame_bind tame_drain_step Cons.IH)
  show ?case
  proof (rule tameI)
    fix \<sigma> :: env
    define \<sigma>1 where "\<sigma>1 = (if stop_called t then \<sigma>\<lparr>self := Worker_stop (self \<sigma>)\<rparr> else \<sigma>)"
    have o: "oak \<sigma>1 = oak \<sigma>" by (simp add: \<sigma>1_def)
    have u: "drain cv (t # ts) \<sigma> =
        (if running (manager (self \<sigma>1)) then bind (drain_step cv t) (\<lambda>_. drain cv ts) \<sigma>1
         else (Ok (), \<sigma>1))"
      unfolding \<sigma>1_def by (rule drain_unfold)
    show "faults (oak (snd (drain cv (t # ts) \<sigma>))) = faults (oak \<sigma>)"
      unfolding u using tame_faults [OF tb, of \<sigma>1] o by simp
    show "\<exists>cs. calls (oak (snd (drain cv (t # ts) \<sigma>))) = calls (oak \<sigma>) @ cs"
      unfolding u using tame_calls [OF tb, of \<sigma>1] o by simp
    fix e
    assume "fst (drain cv (t # ts) \<sigma>) = Raise e"
    then have "running (manager (self \<sigma>1)) \<and> fst (bind (drain_step cv t) (\<lambda>_. drain cv ts) \<sigma>1) = Raise e"
      unfolding u by (simp split: if_splits)
    with tame_raise [OF tb, of \<sigma>1 e] o show "e \<in> snd ` set (faults (oak \<sigma>))" by simp
  qed
qed



section \<open>The claims\<close>

text \<open>
  C1. The claim: after 4 consecutive pipeline failures with no successful rebuild in
  between, \<open>needs_reconfigure\<close> becomes true, once, and no further session is attempted
  until the watchdog has seen the flag. The code, on five sessions in a row whose opening
  raises: the local counter \<open>failures\<close> starts at 0 in every invocation of
  \<open>_pipeline_loop\<close>, so each failure is logged with count 1, the flag is still false after
  the fourth and the fifth, a fifth session is attempted, and the thread is still in its
  loop.
\<close>

theorem four_failures_leave_flag_unset:
  "fst (Worker_run cv2_sample [failing_plan, failing_plan, failing_plan, failing_plan, failing_plan]
          (Worker_init 480 640 30 True True)) = Pending \<and>
   needs_reconfigure (manager (snd (Worker_run cv2_sample
          [failing_plan, failing_plan, failing_plan, failing_plan, failing_plan]
          (Worker_init 480 640 30 True True)))) = False \<and>
   filter (\<lambda>l. l \<noteq> Debug ''Exiting worker camera loop.'')
     (logger (snd (Worker_run cv2_sample
          [failing_plan, failing_plan, failing_plan, failing_plan, failing_plan]
          (Worker_init 480 640 30 True True)))) =
     [Info ''Initializing camera pipeline worker.'',
      Debug ''Initializing worker image pipeline.'',
      Debug_failure_count 1 (Exception ''device unreachable''),
      Debug ''Initializing worker image pipeline.'',
      Debug_failure_count 1 (Exception ''device unreachable''),
      Debug ''Initializing worker image pipeline.'',
      Debug_failure_count 1 (Exception ''device unreachable''),
      Debug ''Initializing worker image pipeline.'',
      Debug_failure_count 1 (Exception ''device unreachable''),
      Debug ''Initializing worker image pipeline.'',
      Debug_failure_count 1 (Exception ''device unreachable'')]"
  by (simp add: Worker_run_def pipeline_loop_def pipeline_body_def bind_def on_self_def
        with_OakCamera_def call_def failing_plan_def Worker_init_def log_to_def
        pipeline_finally_def fresh_env_def WorkerManager_start_def WorkerManager_init_def)

lemma stable_count_origin:
  "stable (\<lambda>w. Debug_failure_count n e \<in> set (logger w) \<longrightarrow> Debug_failure_count n e \<in> L \<or> n = 1)"
  by (auto simp add: stable_def log_to_def set_current_image_def set_current_depth_map_def
        set_current_pcd_def Worker_stop_def WorkerManager_stop_def m_log_to_def)

lemma pipeline_loop_failures:
  "failures (pipeline_loop cv p w) =
     (case fst (pipeline_body cv (ticks p) (fresh_env w p)) of
        Ok u \<Rightarrow> 0
      | Raise e \<Rightarrow> if is_Exception e then 1 else 0
      | Unfinished \<Rightarrow> 0)"
  by (simp add: pipeline_loop_unfold split: prod.splits res.splits)


text \<open>
  C2. A run of at most three invocations of the pipeline loop, whatever fails in them,
  leaves \<open>needs_reconfigure\<close> unset. The counter \<open>failures\<close> is 0 at the start of every
  invocation: at the end it is 1 if the invocation caught an exception and 0 otherwise,
  in whatever state the worker was, and every failure count the run logs is 1.
\<close>

theorem at_most_three_failures_never_escalate:
  assumes "length ps \<le> 3" and "\<not> needs_reconfigure (manager w)"
  shows "\<not> needs_reconfigure (manager (snd (Worker_run cv ps w))) \<and>
         failures (pipeline_loop cv p w') =
           (case fst (pipeline_body cv (ticks p) (fresh_env w' p)) of
              Ok u \<Rightarrow> 0
            | Raise e \<Rightarrow> if is_Exception e then 1 else 0
            | Unfinished \<Rightarrow> 0) \<and>
         (Debug_failure_count n x \<in> set (logger (snd (Worker_run cv ps w))) \<longrightarrow>
            Debug_failure_count n x \<in> set (logger w) \<or> n = 1)"
proof (intro conjI)
  from assms(2) show "\<not> needs_reconfigure (manager (snd (Worker_run cv ps w)))"
    by (simp add: Worker_run_flag)
  show "failures (pipeline_loop cv p w') =
           (case fst (pipeline_body cv (ticks p) (fresh_env w' p)) of
              Ok u \<Rightarrow> 0
            | Raise e \<Rightarrow> if is_Exception e then 1 else 0
            | Unfinished \<Rightarrow> 0)"
    by (rule pipeline_loop_failures)
  show "Debug_failure_count n x \<in> set (logger (snd (Worker_run cv ps w))) \<longrightarrow>
            Debug_failure_count n x \<in> set (logger w) \<or> n = 1"
    by (rule Worker_run_keeps [OF stable_count_origin]) simp
qed

text \<open>The same at three sessions in a row whose opening raises.\<close>

theorem at_most_three_failures_witness:
  "\<not> needs_reconfigure (manager (snd (Worker_run cv2_sample
        [failing_plan, failing_plan, failing_plan] (Worker_init 480 640 30 True True)))) \<and>
   failures (pipeline_loop cv2_sample failing_plan (Worker_init 480 640 30 True True)) = 1 \<and>
   Debug_failure_count 2 (Exception ''device unreachable'') \<notin>
     set (logger (snd (Worker_run cv2_sample
        [failing_plan, failing_plan, failing_plan] (Worker_init 480 640 30 True True))))"
proof -
  have l: "length [failing_plan, failing_plan, failing_plan] \<le> 3" by simp
  have f: "\<not> needs_reconfigure (manager (Worker_init 480 640 30 True True))"
    by (simp add: Worker_init_def WorkerManager_start_def WorkerManager_init_def)
  have b: "fst (pipeline_body cv2_sample (ticks failing_plan)
                 (fresh_env (Worker_init 480 640 30 True True) failing_plan)) =
           Raise (Exception ''device unreachable'')"
    by (simp add: pipeline_body_def bind_def on_self_def with_OakCamera_def call_def
          failing_plan_def fresh_env_def)
  have i: "Debug_failure_count 2 (Exception ''device unreachable'') \<notin>
             set (logger (Worker_init 480 640 30 True True))"
    by (simp add: Worker_init_def)
  from at_most_three_failures_never_escalate [OF l f, of cv2_sample failing_plan
      "Worker_init 480 640 30 True True" 2 "Exception ''device unreachable''"] b i
  show ?thesis by simp
qed






lemma manager_loop_flag_stays:
  "needs_reconfigure m \<Longrightarrow> needs_reconfigure (snd (manager_loop ts m))"
  by (induction ts arbitrary: m)
     (auto simp add: Let_def WorkerManager_stop_def m_log_to_def split: option.splits)

text \<open>
  C4. The claim: the watchdog, seeing the flag on a tick, invokes the callback and leaves
  the flag set, and the worker clears the flag on its next successful rebuild. The code
  has no statement that writes \<open>needs_reconfigure = False\<close>: here the watchdog has seen the
  flag and invoked the callback once, the worker then opens a session, builds the
  pipeline and stores a frame, and the flag is still set.
\<close>

theorem flag_survives_successful_rebuild:
  "reconfigure_calls (manager flagged_worker) = 1 \<and>
   needs_reconfigure (manager flagged_worker) \<and>
   status (pipeline_loop cv2_sample frames_plan flagged_worker) = Pending \<and>
   failures (pipeline_loop cv2_sample frames_plan flagged_worker) = 0 \<and>
   color_image (self (final (pipeline_loop cv2_sample frames_plan flagged_worker))) =
     Arr [Arr [Arr [Num 3, Num 2, Num 1], Arr [Num 6, Num 5, Num 4]]] \<and>
   needs_reconfigure (manager (self (final (pipeline_loop cv2_sample frames_plan flagged_worker))))"
  by (simp add: flagged_worker_def flag_tick_def frames_plan_def frames_tick_def
        Worker_init_def WorkerManager_start_def WorkerManager_init_def m_log_to_def
        pipeline_loop_def pipeline_body_def fresh_env_def with_OakCamera_def
        add_camera_rgb_node_def add_depth_node_def add_pc_node_def drain_step_def
        handle_color_output_def handle_depth_output_def handle_pcd_output_def
        bind_def ret_def get_self_def on_self_def call_def log_to_def
        set_current_image_def set_current_depth_map_def set_current_pcd_def
        cv2_sample_def map_arr_def rev_channels_def Let_def)

text \<open>
  C4 as amended: on a tick that finds the flag set (and no stop request), the watchdog
  invokes the callback once and leaves the flag set; the flag then stays set through
  every later watchdog tick and every later run of the worker, successful rebuilds
  included.
\<close>

theorem watchdog_invokes_callback_and_flag_stays:
  assumes "running m" and "\<not> m_stop_called t" and "needs_reconfigure m \<or> flag_raised t"
    and "callback_raises t = None"
  shows "reconfigure_calls (snd (manager_loop [t] m)) = reconfigure_calls m + 1 \<and>
         needs_reconfigure (snd (manager_loop [t] m)) \<and>
         needs_reconfigure (snd (manager_loop (t # ts) m)) \<and>
         needs_reconfigure
           (manager (snd (Worker_run cv ps (w\<lparr>manager := snd (manager_loop (t # ts) m)\<rparr>))))"
proof -
  from assms have one: "reconfigure_calls (snd (manager_loop [t] m)) = reconfigure_calls m + 1"
    by (auto simp add: Let_def m_log_to_def)
  from assms have now: "needs_reconfigure (snd (manager_loop [t] m))"
    by (auto simp add: Let_def m_log_to_def)
  from assms have later: "needs_reconfigure (snd (manager_loop (t # ts) m))"
    by (auto simp add: Let_def m_log_to_def intro: manager_loop_flag_stays)
  then have "needs_reconfigure
           (manager (snd (Worker_run cv ps (w\<lparr>manager := snd (manager_loop (t # ts) m)\<rparr>))))"
    by (simp add: Worker_run_flag)
  with one now later show ?thesis by simp
qed

text \<open>The same at two watchdog ticks followed by a session that delivers frames.\<close>

theorem watchdog_invokes_callback_witness:
  "reconfigure_calls (snd (manager_loop [flag_tick] (manager (Worker_init 1 2 30 True True)))) = 1 \<and>
   needs_reconfigure (snd (manager_loop [flag_tick, flag_tick] (manager (Worker_init 1 2 30 True True)))) \<and>
   needs_reconfigure (manager (snd (Worker_run cv2_sample [frames_plan]
      ((Worker_init 1 2 30 True True)
         \<lparr>manager := snd (manager_loop [flag_tick, flag_tick] (manager (Worker_init 1 2 30 True True)))\<rparr>))))"
proof -
  have r: "running (manager (Worker_init 1 2 30 True True))"
    by (simp add: Worker_init_def WorkerManager_start_def WorkerManager_init_def)
  have s: "\<not> m_stop_called flag_tick" by (simp add: flag_tick_def)
  have f: "needs_reconfigure (manager (Worker_init 1 2 30 True True)) \<or> flag_raised flag_tick"
    by (simp add: flag_tick_def)
  have c: "callback_raises flag_tick = None" by (simp add: flag_tick_def)
  have z: "reconfigure_calls (manager (Worker_init 1 2 30 True True)) = 0"
    by (simp add: Worker_init_def WorkerManager_start_def WorkerManager_init_def)
  from watchdog_invokes_callback_and_flag_stays [OF r s f c, of "[flag_tick]" cv2_sample
      "[frames_plan]" "Worker_init 1 2 30 True True"] z
  show ?thesis by simp
qed

text \<open>
  C5. The claim: when the callback raises, the watchdog keeps running and the next tick
  invokes the callback again. The code calls \<open>self.reconfigure()\<close> with no handler
  around it: of two ticks, the first of which has the callback raise, only the first
  runs, the exception leaves \<open>WorkerManager.run\<close>, and the callback was invoked once.
\<close>

theorem callback_error_ends_watchdog_run:
  "fst (WorkerManager_run [failing_callback_tick, flag_tick]
          (manager (Worker_init 1 2 30 True True))) =
     Propagated (Exception ''reconfigure failed'') \<and>
   reconfigure_calls (snd (WorkerManager_run [failing_callback_tick, flag_tick]
          (manager (Worker_init 1 2 30 True True)))) = 1 \<and>
   slept (snd (WorkerManager_run [failing_callback_tick, flag_tick]
          (manager (Worker_init 1 2 30 True True)))) = []"
  by (simp add: WorkerManager_run_def failing_callback_tick_def flag_tick_def Worker_init_def
        WorkerManager_start_def WorkerManager_init_def m_log_to_def Let_def)

text \<open>
  C5 as amended: when the callback raises on a tick that finds the flag set, it is not
  retried in that tick; the exception leaves the watchdog's loop, whatever ticks would
  have followed, before the sleep; the flag and \<open>running\<close> are both still true.
\<close>

theorem callback_error_leaves_the_loop:
  assumes "running m" and "\<not> m_stop_called t" and "needs_reconfigure m \<or> flag_raised t"
    and "callback_raises t = Some e"
  shows "fst (manager_loop (t # ts) m) = Propagated e \<and>
         reconfigure_calls (snd (manager_loop (t # ts) m)) = reconfigure_calls m + 1 \<and>
         needs_reconfigure (snd (manager_loop (t # ts) m)) \<and>
         running (snd (manager_loop (t # ts) m)) \<and>
         slept (snd (manager_loop (t # ts) m)) = slept m"
  using assms by (auto simp add: Let_def m_log_to_def)

text \<open>The same at a tick whose callback raises, followed by another tick.\<close>

theorem callback_error_witness:
  "fst (manager_loop [failing_callback_tick, flag_tick] (manager (Worker_init 1 2 30 True True))) =
     Propagated (Exception ''reconfigure failed'') \<and>
   reconfigure_calls (snd (manager_loop [failing_callback_tick, flag_tick]
     (manager (Worker_init 1 2 30 True True)))) = 1 \<and>
   running (snd (manager_loop [failing_callback_tick, flag_tick]
     (manager (Worker_init 1 2 30 True True))))"
proof -
  have r: "running (manager (Worker_init 1 2 30 True True))"
    by (simp add: Worker_init_def WorkerManager_start_def WorkerManager_init_def)
  have s: "\<not> m_stop_called failing_callback_tick" by (simp add: failing_callback_tick_def)
  have f: "needs_reconfigure (manager (Worker_init 1 2 30 True True)) \<or>
           flag_raised failing_callback_tick"
    by (simp add: failing_callback_tick_def)
  have c: "callback_raises failing_callback_tick = Some (Exception ''reconfigure failed'')"
    by (simp add: failing_callback_tick_def)
  have z: "reconfigure_calls (manager (Worker_init 1 2 30 True True)) = 0"
    by (simp add: Worker_init_def WorkerManager_start_def WorkerManager_init_def)
  from callback_error_leaves_the_loop [OF r s f c, of "[flag_tick]"] z
  show ?thesis by simp
qed

lemma getters_after_stores:
  "get_color_image (foldl apply_store w ops) = latest_image (color_image w) ops \<and>
   get_depth_map (foldl apply_store w ops) = latest_depth_map (depth_map w) ops \<and>
   get_pcd (foldl apply_store w ops) = latest_pcd (pcd w) ops"
proof (induction ops arbitrary: w)
  case Nil
  show ?case by (simp add: get_color_image_def get_depth_map_def get_pcd_def)
next
  case (Cons op ops)
  show ?case
    using Cons.IH [of "apply_store w op"]
    by (cases op)
       (simp_all add: set_current_image_def set_current_depth_map_def set_current_pcd_def
          log_to_def)
qed

text \<open>
  C8. The three getters are total functions of the worker object: they return a value in
  every state, with no error result and no loop. On a worker as constructed they return
  the empty array; after any sequence of writes through the setters each returns the last
  value written to its slot, or the empty array if the slot was never written.
\<close>

theorem getters_return_latest_or_empty:
  "get_color_image (foldl apply_store (Worker_init h w fr c d) ops) =
     latest_image np_array_empty ops \<and>
   get_depth_map (foldl apply_store (Worker_init h w fr c d) ops) =
     latest_depth_map np_array_empty ops \<and>
   get_pcd (foldl apply_store (Worker_init h w fr c d) ops) = latest_pcd np_array_empty ops \<and>
   get_color_image (Worker_init h w fr c d) = np_array_empty \<and>
   get_depth_map (Worker_init h w fr c d) = np_array_empty \<and>
   get_pcd (Worker_init h w fr c d) = np_array_empty"
  using getters_after_stores [of "Worker_init h w fr c d" ops]
  by (simp add: Worker_init_def get_color_image_def get_depth_map_def get_pcd_def)

text \<open>
  C10. \<open>Worker.__init__\<close> constructs the \<open>WorkerManager\<close> and calls its \<open>start\<close>: on the
  constructed worker the watchdog's thread is started and its \<open>running\<close> is true, while
  the worker's own thread is not started. The watchdog's \<open>run\<close> on that object enters
  its loop and does not return: an iteration checks the flag and sleeps 5.
\<close>

theorem constructor_starts_watchdog:
  "m_started (manager (Worker_init h w fr c d)) \<and>
   running (manager (Worker_init h w fr c d)) \<and>
   w_started (Worker_init h w fr c d) = False \<and>
   fst (WorkerManager_run [] (manager (Worker_init h w fr c d))) = Pending \<and>
   fst (WorkerManager_run [quiet_tick] (manager (Worker_init h w fr c d))) = Pending \<and>
   slept (snd (WorkerManager_run [quiet_tick] (manager (Worker_init h w fr c d)))) = [5] \<and>
   m_logger (snd (WorkerManager_run [quiet_tick] (manager (Worker_init h w fr c d)))) =
     [Debug ''Starting worker manager.'', Debug ''Checking if worker must be reconfigured.'']"
  by (simp add: Worker_init_def WorkerManager_start_def WorkerManager_init_def
        WorkerManager_run_def quiet_tick_def m_log_to_def Let_def)

lemma bind_Ok:
  "bind m f \<sigma> = (Ok b, \<sigma>') \<Longrightarrow> \<exists>a \<sigma>1. m \<sigma> = (Ok a, \<sigma>1) \<and> f a \<sigma>1 = (Ok b, \<sigma>')"
  by (cases "m \<sigma>") (auto simp add: bind_def split: res.splits)

lemma handle_color_output_stores:
  assumes "handle_color_output cv t \<sigma> = (Ok u, \<sigma>')"
    and "should_get_color (self \<sigma>)" and "rgb_frame t = Some f"
  shows "self \<sigma>' = set_current_image (cvtColor cv f COLOR_BGR2RGB) (self \<sigma>) \<and>
         calls (oak \<sigma>') = calls (oak \<sigma>) @
           [GetOutputQueue RGB_STREAM_NAME None None,
            TryGet (length (calls (oak \<sigma>))),
            GetCvFrame (Suc (length (calls (oak \<sigma>)))),
            Cv2_cvtColor COLOR_BGR2RGB]"
  using assms
  by (auto simp add: handle_color_output_def bind_def get_self_def call_def on_self_def
        Let_def split: option.splits)

lemma handle_depth_output_stores:
  assumes "handle_depth_output cv t \<sigma> = (Ok u, \<sigma>')"
    and "should_get_depth (self \<sigma>)" and "depth_frame t = Some f"
  shows "self \<sigma>' =
           set_current_depth_map (resize cv f (width (self \<sigma>), height (self \<sigma>))) (self \<sigma>) \<and>
         calls (oak \<sigma>') = calls (oak \<sigma>) @
           [GetOutputQueue DEPTH_STREAM_NAME (Some 4) (Some False),
            TryGet (length (calls (oak \<sigma>))),
            GetCvFrame (Suc (length (calls (oak \<sigma>)))),
            Cv2_resize (width (self \<sigma>)) (height (self \<sigma>))]"
  using assms
  by (auto simp add: handle_depth_output_def bind_def get_self_def call_def on_self_def
        Let_def split: option.splits)

lemma handle_depth_output_keeps:
  assumes d: "\<And>a w. I w \<Longrightarrow> I (set_current_depth_map a w)"
  shows "preserves I (handle_depth_output cv t)"
  unfolding handle_depth_output_def
  by (intro preserves_bind preserves_get_self preserves_if preserves_call preserves_ret
        preserves_case_option preserves_on_self d)

lemma packets_keep:
  assumes p: "\<And>packet w. I w \<Longrightarrow> I (set_current_pcd packet w)"
  shows "I w \<Longrightarrow> I (foldl (\<lambda>w' packet. set_current_pcd packet w') w ps)"
proof (induction ps arbitrary: w)
  case Nil
  then show ?case by simp
next
  case (Cons x ps)
  from p [OF Cons.prems] have "I (set_current_pcd x w)" .
  then show ?case using Cons.IH by simp
qed

lemma handle_pcd_output_keeps:
  assumes p: "\<And>packet w. I w \<Longrightarrow> I (set_current_pcd packet w)"
  shows "preserves I (handle_pcd_output t)"
  unfolding handle_pcd_output_def
  by (intro preserves_bind preserves_get_self preserves_if preserves_call preserves_ret
        preserves_on_self packets_keep [where I = I, OF p])

lemma stable_config:
  "stable (\<lambda>w. should_get_depth w = b \<and> width w = x \<and> height w = y)"
  by (simp add: stable_def log_to_def set_current_image_def set_current_depth_map_def
        set_current_pcd_def Worker_stop_def)

lemma tame_member:
  assumes "tame m" and "c \<in> set (calls (oak \<sigma>))"
  shows "c \<in> set (calls (oak (snd (m \<sigma>))))"
proof -
  from tame_calls [OF assms(1), of \<sigma>] obtain cs
    where "calls (oak (snd (m \<sigma>))) = calls (oak \<sigma>) @ cs" by auto
  with assms(2) show ?thesis by simp
qed

text \<open>
  C7. In an iteration of the drain loop that does not raise: with colour enabled and a
  frame found by \<open>tryGet\<close> on the \<open>rgb\<close> queue, \<open>_handle_color_output\<close> passes the frame
  through \<open>cvtColor(..., COLOR_BGR2RGB)\<close> and stores the result with the colour setter;
  with depth enabled and a frame found by \<open>tryGet\<close> on the \<open>depth\<close> queue, opened with
  \<open>maxSize=4, blocking=False\<close>, \<open>_handle_depth_output\<close> passes it through
  \<open>resize(..., (width, height))\<close> and stores the result with the depth setter. At the
  end of the iteration the two slots hold these values.
\<close>

theorem drain_iteration_converts_and_stores:
  "(handle_color_output cv t \<sigma> = (Ok u, \<sigma>1) \<and> should_get_color (self \<sigma>) \<and> rgb_frame t = Some f \<longrightarrow>
      self \<sigma>1 = set_current_image (cvtColor cv f COLOR_BGR2RGB) (self \<sigma>) \<and>
      calls (oak \<sigma>1) = calls (oak \<sigma>) @
        [GetOutputQueue RGB_STREAM_NAME None None,
         TryGet (length (calls (oak \<sigma>))),
         GetCvFrame (Suc (length (calls (oak \<sigma>)))),
         Cv2_cvtColor COLOR_BGR2RGB]) \<and>
   (handle_depth_output cv t \<sigma>1 = (Ok u, \<sigma>2) \<and> should_get_depth (self \<sigma>1) \<and> depth_frame t = Some d \<longrightarrow>
      self \<sigma>2 =
        set_current_depth_map (resize cv d (width (self \<sigma>1), height (self \<sigma>1))) (self \<sigma>1) \<and>
      calls (oak \<sigma>2) = calls (oak \<sigma>1) @
        [GetOutputQueue DEPTH_STREAM_NAME (Some 4) (Some False),
         TryGet (length (calls (oak \<sigma>1))),
         GetCvFrame (Suc (length (calls (oak \<sigma>1)))),
         Cv2_resize (width (self \<sigma>1)) (height (self \<sigma>1))]) \<and>
   (drain_step cv t \<sigma> = (Ok u, \<sigma>') \<longrightarrow>
      (should_get_color (self \<sigma>) \<and> rgb_frame t = Some f \<longrightarrow>
         color_image (self \<sigma>') = cvtColor cv f COLOR_BGR2RGB \<and>
         GetOutputQueue RGB_STREAM_NAME None None \<in> set (calls (oak \<sigma>'))) \<and>
      (should_get_depth (self \<sigma>) \<and> depth_frame t = Some d \<longrightarrow>
         depth_map (self \<sigma>') = resize cv d (width (self \<sigma>), height (self \<sigma>)) \<and>
         GetOutputQueue DEPTH_STREAM_NAME (Some 4) (Some False) \<in> set (calls (oak \<sigma>'))))"
proof (intro conjI impI)
  assume "handle_color_output cv t \<sigma> = (Ok u, \<sigma>1) \<and> should_get_color (self \<sigma>) \<and> rgb_frame t = Some f"
  then have "self \<sigma>1 = set_current_image (cvtColor cv f COLOR_BGR2RGB) (self \<sigma>) \<and>
      calls (oak \<sigma>1) = calls (oak \<sigma>) @
        [GetOutputQueue RGB_STREAM_NAME None None,
         TryGet (length (calls (oak \<sigma>))),
         GetCvFrame (Suc (length (calls (oak \<sigma>)))),
         Cv2_cvtColor COLOR_BGR2RGB]"
    using handle_color_output_stores [of cv t \<sigma> u \<sigma>1 f] by simp
  then show "self \<sigma>1 = set_current_image (cvtColor cv f COLOR_BGR2RGB) (self \<sigma>)"
    and "calls (oak \<sigma>1) = calls (oak \<sigma>) @
        [GetOutputQueue RGB_STREAM_NAME None None,
         TryGet (length (calls (oak \<sigma>))),
         GetCvFrame (Suc (length (calls (oak \<sigma>)))),
         Cv2_cvtColor COLOR_BGR2RGB]"
    by simp_all
next
  assume "handle_depth_output cv t \<sigma>1 = (Ok u, \<sigma>2) \<and> should_get_depth (self \<sigma>1) \<and> depth_frame t = Some d"
  then have "self \<sigma>2 =
        set_current_depth_map (resize cv d (width (self \<sigma>1), height (self \<sigma>1))) (self \<sigma>1) \<and>
      calls (oak \<sigma>2) = calls (oak \<sigma>1) @
        [GetOutputQueue DEPTH_STREAM_NAME (Some 4) (Some False),
         TryGet (length (calls (oak \<sigma>1))),
         GetCvFrame (Suc (length (calls (oak \<sigma>1)))),
         Cv2_resize (width (self \<sigma>1)) (height (self \<sigma>1))]"
    using handle_depth_output_stores [of cv t \<sigma>1 u \<sigma>2 d] by simp
  then show "self \<sigma>2 =
        set_current_depth_map (resize cv d (width (self \<sigma>1), height (self \<sigma>1))) (self \<sigma>1)"
    and "calls (oak \<sigma>2) = calls (oak \<sigma>1) @
        [GetOutputQueue DEPTH_STREAM_NAME (Some 4) (Some False),
         TryGet (length (calls (oak \<sigma>1))),
         GetCvFrame (Suc (length (calls (oak \<sigma>1)))),
         Cv2_resize (width (self \<sigma>1)) (height (self \<sigma>1))]"
    by simp_all
next
  assume step: "drain_step cv t \<sigma> = (Ok u, \<sigma>')"
  from bind_Ok [OF step [unfolded drain_step_def]] obtain v1 \<tau>1
    where c: "handle_color_output cv t \<sigma> = (Ok v1, \<tau>1)"
      and rest: "bind (handle_depth_output cv t) (\<lambda>_. handle_pcd_output t) \<tau>1 = (Ok u, \<sigma>')"
    by blast
  from bind_Ok [OF rest] obtain v2 \<tau>2
    where dp: "handle_depth_output cv t \<tau>1 = (Ok v2, \<tau>2)"
      and pc: "handle_pcd_output t \<tau>2 = (Ok u, \<sigma>')"
    by blast
  have snd1: "snd (handle_depth_output cv t \<tau>1) = \<tau>2" using dp by simp
  have snd2: "snd (handle_pcd_output t \<tau>2) = \<sigma>'" using pc by simp
  {
    assume "should_get_color (self \<sigma>) \<and> rgb_frame t = Some f"
    with handle_color_output_stores [OF c, of f]
    have s1: "self \<tau>1 = set_current_image (cvtColor cv f COLOR_BGR2RGB) (self \<sigma>)"
      and k1: "GetOutputQueue RGB_STREAM_NAME None None \<in> set (calls (oak \<tau>1))"
      by simp_all
    from s1 have i1: "color_image (self \<tau>1) = cvtColor cv f COLOR_BGR2RGB"
      by (simp add: set_current_image_def)
    have "preserves (\<lambda>w. color_image w = cvtColor cv f COLOR_BGR2RGB) (handle_depth_output cv t)"
      by (rule handle_depth_output_keeps) (simp add: set_current_depth_map_def log_to_def)
    from preservesD [OF this i1] snd1
    have i2: "color_image (self \<tau>2) = cvtColor cv f COLOR_BGR2RGB" by simp
    have "preserves (\<lambda>w. color_image w = cvtColor cv f COLOR_BGR2RGB) (handle_pcd_output t)"
      by (rule handle_pcd_output_keeps) (simp add: set_current_pcd_def log_to_def)
    from preservesD [OF this i2] snd2
    show "color_image (self \<sigma>') = cvtColor cv f COLOR_BGR2RGB" by simp
    from tame_member [OF tame_handle_depth_output k1, of cv t] snd1
    have "GetOutputQueue RGB_STREAM_NAME None None \<in> set (calls (oak \<tau>2))" by simp
    from tame_member [OF tame_handle_pcd_output this, of t] snd2
    show "GetOutputQueue RGB_STREAM_NAME None None \<in> set (calls (oak \<sigma>'))" by simp
  }
  {
    assume a: "should_get_depth (self \<sigma>) \<and> depth_frame t = Some d"
    have "preserves (\<lambda>w. should_get_depth w = True \<and> width w = width (self \<sigma>) \<and>
                       height w = height (self \<sigma>)) (handle_color_output cv t)"
      by (rule preserves_handle_color_output [OF stable_config])
    from preservesD [OF this, of \<sigma>] a c
    have cfg: "should_get_depth (self \<tau>1)" "width (self \<tau>1) = width (self \<sigma>)"
      "height (self \<tau>1) = height (self \<sigma>)"
      by simp_all
    from a have df: "depth_frame t = Some d" by simp
    from handle_depth_output_stores [OF dp cfg(1) df] cfg
    have s2: "self \<tau>2 =
        set_current_depth_map (resize cv d (width (self \<sigma>), height (self \<sigma>))) (self \<tau>1)"
      and k2: "GetOutputQueue DEPTH_STREAM_NAME (Some 4) (Some False) \<in> set (calls (oak \<tau>2))"
      by simp_all
    from s2 have i2: "depth_map (self \<tau>2) = resize cv d (width (self \<sigma>), height (self \<sigma>))"
      by (simp add: set_current_depth_map_def)
    have "preserves (\<lambda>w. depth_map w = resize cv d (width (self \<sigma>), height (self \<sigma>)))
            (handle_pcd_output t)"
      by (rule handle_pcd_output_keeps) (simp add: set_current_pcd_def log_to_def)
    from preservesD [OF this i2] snd2
    show "depth_map (self \<sigma>') = resize cv d (width (self \<sigma>), height (self \<sigma>))" by simp
    from tame_member [OF tame_handle_pcd_output k2, of t] snd2
    show "GetOutputQueue DEPTH_STREAM_NAME (Some 4) (Some False) \<in> set (calls (oak \<sigma>'))"
      by simp
  }
qed

text \<open>The same at an iteration that finds a colour frame and a depth frame.\<close>

lemma sample_color: "handle_color_output cv2_sample frames_tick drain_start =
   (Ok (), snd (handle_color_output cv2_sample frames_tick drain_start))"
  by (simp add: drain_start_def fresh_env_def frames_plan_def frames_tick_def Worker_init_def
        handle_color_output_def bind_def get_self_def call_def on_self_def Let_def)

lemma sample_depth:
  "handle_depth_output cv2_sample frames_tick
     (snd (handle_color_output cv2_sample frames_tick drain_start)) =
   (Ok (), snd (handle_depth_output cv2_sample frames_tick
     (snd (handle_color_output cv2_sample frames_tick drain_start))))"
  by (simp add: drain_start_def fresh_env_def frames_plan_def frames_tick_def Worker_init_def
        handle_color_output_def handle_depth_output_def bind_def get_self_def call_def
        on_self_def Let_def set_current_image_def log_to_def)

lemma sample_step: "drain_step cv2_sample frames_tick drain_start =
   (Ok (), snd (drain_step cv2_sample frames_tick drain_start))"
  by (simp add: drain_start_def fresh_env_def frames_plan_def frames_tick_def Worker_init_def
        drain_step_def handle_color_output_def handle_depth_output_def handle_pcd_output_def
        bind_def get_self_def call_def on_self_def Let_def set_current_image_def
        set_current_depth_map_def log_to_def)

lemma sample_cvt:
  "cvtColor cv2_sample (Arr [Arr [Arr [Num 1, Num 2, Num 3], Arr [Num 4, Num 5, Num 6]]])
     COLOR_BGR2RGB = Arr [Arr [Arr [Num 3, Num 2, Num 1], Arr [Num 6, Num 5, Num 4]]]"
  by (simp add: cv2_sample_def map_arr_def rev_channels_def)

lemma sample_resize:
  "resize cv2_sample (Arr [Arr [Num 7, Num 8, Num 9, Num 10]]) (2, 1) = Arr [Arr [Num 7, Num 9]]"
proof -
  have two: "[0..<2] = [0, Suc 0]" by (simp add: numeral_2_eq_2)
  have one: "[0..<1] = [0]" by simp
  show ?thesis
    by (simp add: cv2_sample_def resize_nearest_def nearest_def two one)
qed

theorem drain_iteration_witness:
  "color_image (self (snd (handle_color_output cv2_sample frames_tick drain_start))) =
     Arr [Arr [Arr [Num 3, Num 2, Num 1], Arr [Num 6, Num 5, Num 4]]] \<and>
   depth_map (self (snd (handle_depth_output cv2_sample frames_tick
     (snd (handle_color_output cv2_sample frames_tick drain_start))))) = Arr [Arr [Num 7, Num 9]] \<and>
   color_image (self (snd (drain_step cv2_sample frames_tick drain_start))) =
     Arr [Arr [Arr [Num 3, Num 2, Num 1], Arr [Num 6, Num 5, Num 4]]] \<and>
   depth_map (self (snd (drain_step cv2_sample frames_tick drain_start))) =
     Arr [Arr [Num 7, Num 9]] \<and>
   GetOutputQueue DEPTH_STREAM_NAME (Some 4) (Some False) \<in>
     set (calls (oak (snd (drain_step cv2_sample frames_tick drain_start))))"
proof -
  have cfg: "should_get_color (self drain_start)" "should_get_depth (self drain_start)"
    "width (self drain_start) = 2" "height (self drain_start) = 1"
    by (simp_all add: drain_start_def fresh_env_def Worker_init_def)
  have cfg1: "should_get_depth (self (snd (handle_color_output cv2_sample frames_tick drain_start)))"
    "width (self (snd (handle_color_output cv2_sample frames_tick drain_start))) = 2"
    "height (self (snd (handle_color_output cv2_sample frames_tick drain_start))) = 1"
    by (simp_all add: drain_start_def fresh_env_def frames_plan_def frames_tick_def
          Worker_init_def handle_color_output_def bind_def get_self_def call_def on_self_def
          Let_def set_current_image_def log_to_def)
  have fr: "rgb_frame frames_tick =
        Some (Arr [Arr [Arr [Num 1, Num 2, Num 3], Arr [Num 4, Num 5, Num 6]]])"
    "depth_frame frames_tick = Some (Arr [Arr [Num 7, Num 8, Num 9, Num 10]])"
    by (simp_all add: frames_tick_def)
  from drain_iteration_converts_and_stores [of cv2_sample frames_tick drain_start "()"
      "snd (handle_color_output cv2_sample frames_tick drain_start)"
      "Arr [Arr [Arr [Num 1, Num 2, Num 3], Arr [Num 4, Num 5, Num 6]]]"
      "snd (handle_depth_output cv2_sample frames_tick
         (snd (handle_color_output cv2_sample frames_tick drain_start)))"
      "Arr [Arr [Num 7, Num 8, Num 9, Num 10]]"
      "snd (drain_step cv2_sample frames_tick drain_start)"]
    sample_color sample_depth sample_step cfg cfg1 fr
  show ?thesis
    by (simp add: sample_cvt sample_resize set_current_image_def set_current_depth_map_def
          log_to_def)
qed

lemma oak_final:
  "oak (final (pipeline_loop cv p w)) = oak (snd (pipeline_body cv (ticks p) (fresh_env w p)))"
  by (simp add: pipeline_loop_unfold pipeline_finally_def split: prod.splits res.splits)

lemma with_OakCamera_calls:
  assumes e: "call OakCamera_enter \<sigma> = (Ok h, \<sigma>1)"
  shows "\<exists>cs. calls (oak (snd (with_OakCamera body \<sigma>))) = calls (oak (snd (body h \<sigma>1))) @ cs"
proof -
  obtain r2 \<sigma>2 where b: "body h \<sigma>1 = (r2, \<sigma>2)" by (cases "body h \<sigma>1")
  obtain r3 \<sigma>3 where c3: "call OakCamera_exit \<sigma>2 = (r3, \<sigma>3)" by (cases "call OakCamera_exit \<sigma>2")
  from tame_calls [OF tame_call, of OakCamera_exit \<sigma>2] c3
  obtain cs where k: "calls (oak \<sigma>3) = calls (oak \<sigma>2) @ cs" by auto
  from e b c3 k show ?thesis
    by (cases r2; cases r3) (simp_all add: with_OakCamera_def)
qed

lemma build_depth_only:
  assumes d: "should_get_depth w" and c: "\<not> should_get_color w" and f: "plan_faults p = []"
  shows "\<exists>cs. calls (oak (snd (pipeline_body cv ts (fresh_env w p)))) =
           depth_only_wiring (frame_rate w) @ cs"
proof -
  let ?B = "\<lambda>oak_h :: handle.
       bind add_camera_rgb_node (\<lambda>color.
       bind (add_depth_node color) (\<lambda>stereo.
       bind (add_pc_node color stereo) (\<lambda>_.
       bind (call (Oak_start False)) (\<lambda>_.
       drain cv ts))))"
  define \<sigma>0 where "\<sigma>0 = \<lparr>self = log_to (Debug ''Initializing worker image pipeline.'') w,
                         oak = \<lparr>calls = [], faults = []\<rparr>\<rparr>"
  define \<sigma>e where "\<sigma>e = \<sigma>0\<lparr>oak := \<lparr>calls = [OakCamera_enter], faults = []\<rparr>\<rparr>"
  define \<sigma>b where "\<sigma>b =
      \<lparr>self = log_to (Debug ''Creating pipeline node: stereo depth.'')
                (log_to (Debug ''Initializing worker image pipeline.'') w),
       oak = \<lparr>calls = depth_only_wiring (frame_rate w), faults = []\<rparr>\<rparr>"
  have body: "pipeline_body cv ts (fresh_env w p) = with_OakCamera ?B \<sigma>0"
    by (simp add: pipeline_body_def bind_def on_self_def fresh_env_def f \<sigma>0_def)
  have enter: "call OakCamera_enter \<sigma>0 = (Ok 0, \<sigma>e)"
    by (simp add: call_def \<sigma>0_def \<sigma>e_def)
  have built: "?B 0 \<sigma>e = drain cv ts \<sigma>b"
    using d c
    by (simp add: add_camera_rgb_node_def add_depth_node_def add_pc_node_def bind_def ret_def
          get_self_def on_self_def call_def Let_def log_to_def \<sigma>0_def \<sigma>e_def \<sigma>b_def
          depth_only_wiring_def eval_nat_numeral)
  from with_OakCamera_calls [OF enter, of ?B] built obtain cs1
    where k1: "calls (oak (snd (with_OakCamera ?B \<sigma>0))) = calls (oak (snd (drain cv ts \<sigma>b))) @ cs1"
    by auto
  from tame_calls [OF tame_drain, of cv ts \<sigma>b] obtain cs2
    where k2: "calls (oak (snd (drain cv ts \<sigma>b))) = depth_only_wiring (frame_rate w) @ cs2"
    by (auto simp add: \<sigma>b_def)
  from body k1 k2 show ?thesis by simp
qed

lemma build_color_depth:
  assumes d: "should_get_depth w" and c: "should_get_color w" and f: "plan_faults p = []"
  shows "\<exists>cs. calls (oak (snd (pipeline_body cv ts (fresh_env w p)))) =
           color_depth_wiring (frame_rate w) (width w) (height w) @ cs"
proof -
  let ?B = "\<lambda>oak_h :: handle.
       bind add_camera_rgb_node (\<lambda>color.
       bind (add_depth_node color) (\<lambda>stereo.
       bind (add_pc_node color stereo) (\<lambda>_.
       bind (call (Oak_start False)) (\<lambda>_.
       drain cv ts))))"
  define \<sigma>0 where "\<sigma>0 = \<lparr>self = log_to (Debug ''Initializing worker image pipeline.'') w,
                         oak = \<lparr>calls = [], faults = []\<rparr>\<rparr>"
  define \<sigma>e where "\<sigma>e = \<sigma>0\<lparr>oak := \<lparr>calls = [OakCamera_enter], faults = []\<rparr>\<rparr>"
  define \<sigma>b where "\<sigma>b =
      \<lparr>self = log_to (Debug ''Creating pipeline node: stereo depth.'')
                (log_to (Debug ''Creating pipeline node: color camera.'')
                  (log_to (Debug ''Initializing worker image pipeline.'') w)),
       oak = \<lparr>calls = color_depth_wiring (frame_rate w) (width w) (height w), faults = []\<rparr>\<rparr>"
  have body: "pipeline_body cv ts (fresh_env w p) = with_OakCamera ?B \<sigma>0"
    by (simp add: pipeline_body_def bind_def on_self_def fresh_env_def f \<sigma>0_def)
  have enter: "call OakCamera_enter \<sigma>0 = (Ok 0, \<sigma>e)"
    by (simp add: call_def \<sigma>0_def \<sigma>e_def)
  have built: "?B 0 \<sigma>e = drain cv ts \<sigma>b"
    using d c
    by (simp add: add_camera_rgb_node_def add_depth_node_def add_pc_node_def bind_def ret_def
          get_self_def on_self_def call_def Let_def log_to_def \<sigma>0_def \<sigma>e_def \<sigma>b_def
          color_depth_wiring_def eval_nat_numeral)
  from with_OakCamera_calls [OF enter, of ?B] built obtain cs1
    where k1: "calls (oak (snd (with_OakCamera ?B \<sigma>0))) = calls (oak (snd (drain cv ts \<sigma>b))) @ cs1"
    by auto
  from tame_calls [OF tame_drain, of cv ts \<sigma>b] obtain cs2
    where k2: "calls (oak (snd (drain cv ts \<sigma>b))) =
                 color_depth_wiring (frame_rate w) (width w) (height w) @ cs2"
    by (auto simp add: \<sigma>b_def)
  from body k1 k2 show ?thesis by simp
qed

text \<open>
  C6. With \<open>should_get_depth\<close> and without \<open>should_get_color\<close>, a session in which
  nothing raises builds the stereo node and the point-cloud node on it, with
  \<open>colorize=None\<close>; whatever the sessions do (faults included), the colour slot keeps
  its value through an invocation of the pipeline loop and through a whole run, so on a
  constructed worker \<open>get_color_image\<close> stays the empty array. With both flags, the
  stereo node is configured with \<open>align\<close> set to the colour camera.
\<close>

theorem depth_pipeline_wiring:
  assumes "should_get_depth w" and "\<not> should_get_color w"
    and "should_get_depth w2" and "should_get_color w2"
    and "plan_faults p = []"
  shows "take 14 (calls (oak (final (pipeline_loop cv p w)))) = depth_only_wiring (frame_rate w) \<and>
         color_image (self (final (pipeline_loop cv p' w))) = color_image w \<and>
         color_image (snd (Worker_run cv ps w)) = color_image w \<and>
         get_color_image (snd (Worker_run cv ps (Worker_init ht wd fr False True))) =
           np_array_empty \<and>
         take 20 (calls (oak (final (pipeline_loop cv p w2)))) =
           color_depth_wiring (frame_rate w2) (width w2) (height w2)"
proof (intro conjI)
  from build_depth_only [OF assms(1,2,5), of cv "ticks p"] obtain cs
    where "calls (oak (final (pipeline_loop cv p w))) = depth_only_wiring (frame_rate w) @ cs"
    by (auto simp add: oak_final)
  then show "take 14 (calls (oak (final (pipeline_loop cv p w)))) =
      depth_only_wiring (frame_rate w)"
    by (simp add: depth_only_wiring_def)
  from build_color_depth [OF assms(3,4,5), of cv "ticks p"] obtain cs
    where "calls (oak (final (pipeline_loop cv p w2))) =
             color_depth_wiring (frame_rate w2) (width w2) (height w2) @ cs"
    by (auto simp add: oak_final)
  then show "take 20 (calls (oak (final (pipeline_loop cv p w2)))) =
      color_depth_wiring (frame_rate w2) (width w2) (height w2)"
    by (simp add: color_depth_wiring_def)
  have i: "\<not> should_get_color w \<and> color_image w = color_image w"
    using assms(2) by simp
  from pipeline_loop_keeps [OF stable_color, where w = w and c1 = "color_image w", OF i]
  show "color_image (self (final (pipeline_loop cv p' w))) = color_image w" by simp
  from Worker_run_keeps [OF stable_color, where w = w and c1 = "color_image w", OF i]
  show "color_image (snd (Worker_run cv ps w)) = color_image w" by simp
  have j: "\<not> should_get_color (Worker_init ht wd fr False True) \<and>
           color_image (Worker_init ht wd fr False True) = np_array_empty"
    by (simp add: Worker_init_def)
  from Worker_run_keeps [OF stable_color,
      where w = "Worker_init ht wd fr False True" and c1 = np_array_empty, OF j]
  show "get_color_image (snd (Worker_run cv ps (Worker_init ht wd fr False True))) =
      np_array_empty"
    by (simp add: get_color_image_def)
qed

text \<open>The same at constructed workers of height 1 and width 2.\<close>

theorem depth_pipeline_wiring_witness:
  "take 14 (calls (oak (final (pipeline_loop cv2_sample frames_plan
       (Worker_init 1 2 30 False True))))) = depth_only_wiring 30 \<and>
   color_image (self (final (pipeline_loop cv2_sample failing_plan
       (Worker_init 1 2 30 False True)))) = Arr [] \<and>
   color_image (snd (Worker_run cv2_sample [failing_plan, frames_plan]
       (Worker_init 1 2 30 False True))) = Arr [] \<and>
   take 20 (calls (oak (final (pipeline_loop cv2_sample frames_plan
       (Worker_init 1 2 30 True True))))) = color_depth_wiring 30 2 1"
proof -
  have a: "should_get_depth (Worker_init 1 2 30 False True)"
    "\<not> should_get_color (Worker_init 1 2 30 False True)"
    "should_get_depth (Worker_init 1 2 30 True True)"
    "should_get_color (Worker_init 1 2 30 True True)"
    "plan_faults frames_plan = []"
    by (simp_all add: Worker_init_def frames_plan_def)
  have v: "frame_rate (Worker_init 1 2 30 False True) = 30"
    "color_image (Worker_init 1 2 30 False True) = Arr []"
    "frame_rate (Worker_init 1 2 30 True True) = 30"
    "width (Worker_init 1 2 30 True True) = 2"
    "height (Worker_init 1 2 30 True True) = 1"
    by (simp_all add: Worker_init_def np_array_empty_def)
  from depth_pipeline_wiring [OF a, of cv2_sample failing_plan
      "[failing_plan, frames_plan]" 1 2 30] v
  show ?thesis by simp
qed

end
